theory Spec2Isabelle
  imports Complex_Main
begin

section \<open>Strings of the JavaScript runtime\<close>

text \<open>
  The service (\<^verbatim>\<open>src/services/core/TrackService.ts\<close>) works on JavaScript strings.
  They are modelled as \<open>string\<close>, read as the UTF-8 bytes of the text: every pattern the
  service searches for (\<^verbatim>\<open>-\<close>, \<^verbatim>\<open>[\<close>, \<^verbatim>\<open>{\<close>, the placeholder, the digits) is ASCII, and an
  ASCII byte never occurs inside a multi-byte UTF-8 sequence, so searching, splitting and
  replacing agree with the UTF-16 operations of the runtime.
\<close>

abbreviation DQ :: char where "DQ \<equiv> CHR 0x22"
abbreviation BSL :: char where "BSL \<equiv> CHR 0x5C"

text \<open>\<^verbatim>\<open>s.startsWith(p)\<close>.\<close>

fun startsWith :: "string \<Rightarrow> string \<Rightarrow> bool" where
  "startsWith s [] = True"
| "startsWith [] (p # ps) = False"
| "startsWith (c # cs) (p # ps) = (c = p \<and> startsWith cs ps)"

text \<open>
  The first occurrence of a pattern: \<open>splitAtFirst pat s = Some (before, after)\<close> when
  \<open>s = before @ pat @ after\<close> and the pattern does not occur earlier; \<open>None\<close> when
  the pattern does not occur.
\<close>

fun splitAtFirst :: "string \<Rightarrow> string \<Rightarrow> (string \<times> string) option" where
  "splitAtFirst pat [] = (if pat = [] then Some ([], []) else None)"
| "splitAtFirst pat (c # cs) =
     (if startsWith (c # cs) pat then Some ([], drop (length pat) (c # cs))
      else (case splitAtFirst pat cs of
              None \<Rightarrow> None
            | Some ba \<Rightarrow> Some (c # fst ba, snd ba)))"



text \<open>\<^verbatim>\<open>s.split('-')\<close>: the pieces between the separators (never an empty list).\<close>

fun splitOn :: "char \<Rightarrow> string \<Rightarrow> string list" where
  "splitOn sep [] = [[]]"
| "splitOn sep (c # cs) =
     (if c = sep then [] # splitOn sep cs
      else (case splitOn sep cs of
              [] \<Rightarrow> [[c]]
            | p # ps \<Rightarrow> (c # p) # ps))"


subsection \<open>Digits and decimal numerals\<close>

definition isDigit :: "char \<Rightarrow> bool" where
  "isDigit c = (c \<in> set ''0123456789'')"

definition digitVal :: "char \<Rightarrow> nat" where
  "digitVal c = length (takeWhile (\<lambda>d. d \<noteq> c) ''0123456789'')"

definition digitChar :: "nat \<Rightarrow> char" where
  "digitChar n = (if n < 10 then ''0123456789'' ! n else CHR ''0'')"

text \<open>The value of a run of decimal digits, most significant first.\<close>

definition digitsVal :: "string \<Rightarrow> nat" where
  "digitsVal ds = foldl (\<lambda>a c. 10 * a + digitVal c) 0 ds"

text \<open>The decimal numeral of a number that is not negative, without leading zeros.\<close>

function showPos :: "int \<Rightarrow> string" where
  "showPos n = (if n < 10 then [digitChar (nat n)] else showPos (n div 10) @ [digitChar (nat (n mod 10))])"
  by pat_completeness auto
termination
  by (relation "measure nat") auto

declare showPos.simps [simp del]

definition showInt :: "int \<Rightarrow> string" where
  "showInt i = (if i < 0 then CHR ''-'' # showPos (- i) else showPos i)"

definition showNat :: "nat \<Rightarrow> string" where
  "showNat n = showPos (int n)"

subsection \<open>White space\<close>

text \<open>
  The white space and line terminators that \<^verbatim>\<open>trim\<close> and \<^verbatim>\<open>parseInt\<close> skip, each as
  its UTF-8 bytes: TAB, LF, VT, FF, CR, SP, U+00A0, U+1680, U+2000 to U+200A, U+2028,
  U+2029, U+202F, U+205F, U+3000 and U+FEFF.
\<close>

definition jsWhiteSpace :: "string list" where
  "jsWhiteSpace =
     [[CHR 0x09], [CHR 0x0A], [CHR 0x0B], [CHR 0x0C], [CHR 0x0D], [CHR 0x20],
      [CHR 0xC2, CHR 0xA0],
      [CHR 0xE1, CHR 0x9A, CHR 0x80],
      [CHR 0xE2, CHR 0x80, CHR 0x80], [CHR 0xE2, CHR 0x80, CHR 0x81],
      [CHR 0xE2, CHR 0x80, CHR 0x82], [CHR 0xE2, CHR 0x80, CHR 0x83],
      [CHR 0xE2, CHR 0x80, CHR 0x84], [CHR 0xE2, CHR 0x80, CHR 0x85],
      [CHR 0xE2, CHR 0x80, CHR 0x86], [CHR 0xE2, CHR 0x80, CHR 0x87],
      [CHR 0xE2, CHR 0x80, CHR 0x88], [CHR 0xE2, CHR 0x80, CHR 0x89],
      [CHR 0xE2, CHR 0x80, CHR 0x8A],
      [CHR 0xE2, CHR 0x80, CHR 0xA8], [CHR 0xE2, CHR 0x80, CHR 0xA9],
      [CHR 0xE2, CHR 0x80, CHR 0xAF],
      [CHR 0xE2, CHR 0x81, CHR 0x9F],
      [CHR 0xE3, CHR 0x80, CHR 0x80],
      [CHR 0xEF, CHR 0xBB, CHR 0xBF]]"

fun trimStartFuel :: "nat \<Rightarrow> string \<Rightarrow> string" where
  "trimStartFuel 0 s = s"
| "trimStartFuel (Suc n) s =
     (case find (startsWith s) jsWhiteSpace of
        None \<Rightarrow> s
      | Some w \<Rightarrow> trimStartFuel n (drop (length w) s))"

definition trimStart :: "string \<Rightarrow> string" where
  "trimStart s = trimStartFuel (length s) s"

fun trimEndFuel :: "nat \<Rightarrow> string \<Rightarrow> string" where
  "trimEndFuel 0 r = r"
| "trimEndFuel (Suc n) r =
     (case find (\<lambda>w. startsWith r (rev w)) jsWhiteSpace of
        None \<Rightarrow> r
      | Some w \<Rightarrow> trimEndFuel n (drop (length w) r))"

text \<open>\<^verbatim>\<open>s.trim()\<close>.\<close>

definition trim :: "string \<Rightarrow> string" where
  "trim s = (let t = trimStart s in rev (trimEndFuel (length t) (rev t)))"

section \<open>JSON values and \<^verbatim>\<open>JSON.parse\<close>\<close>

text \<open>
  The values \<^verbatim>\<open>JSON.parse\<close> returns. A number keeps the exact value of its decimal
  literal (the runtime rounds it to a double; no property below depends on the rounding).
  An object keeps its members in source order; a later member with the same key wins.
\<close>

datatype json =
    JNull
  | JBool bool
  | JNum rat
  | JStr string
  | JArr "json list"
  | JObj "(string \<times> json) list"

definition isJsonWs :: "char \<Rightarrow> bool" where
  "isJsonWs c = (c = CHR 0x20 \<or> c = CHR 0x09 \<or> c = CHR 0x0A \<or> c = CHR 0x0D)"

definition skipWs :: "string \<Rightarrow> string" where
  "skipWs s = dropWhile isJsonWs s"

definition hexVal :: "char \<Rightarrow> nat option" where
  "hexVal c =
     (let n = (of_char c :: nat) in
      if 48 \<le> n \<and> n \<le> 57 then Some (n - 48)
      else if 65 \<le> n \<and> n \<le> 70 then Some (n - 55)
      else if 97 \<le> n \<and> n \<le> 102 then Some (n - 87)
      else None)"

text \<open>The UTF-8 bytes of a code point (a lone surrogate is written as three bytes).\<close>

definition utf8 :: "nat \<Rightarrow> string" where
  "utf8 n =
     (if n < 0x80 then [char_of n]
      else if n < 0x800 then [char_of (0xC0 + n div 64), char_of (0x80 + n mod 64)]
      else if n < 0x10000 then
        [char_of (0xE0 + n div 4096), char_of (0x80 + (n div 64) mod 64), char_of (0x80 + n mod 64)]
      else
        [char_of (0xF0 + n div 262144), char_of (0x80 + (n div 4096) mod 64),
         char_of (0x80 + (n div 64) mod 64), char_of (0x80 + n mod 64)])"

text \<open>
  The body of a string literal is read into items: a byte of the text as it stands, or
  the UTF-16 code unit of a \<^verbatim>\<open>\uXXXX\<close> escape. A high surrogate followed by a low one
  is one code point.
\<close>

fun encodeItems :: "(char + nat) list \<Rightarrow> string" where
  "encodeItems [] = []"
| "encodeItems (Inl c # xs) = c # encodeItems xs"
| "encodeItems (Inr hi # Inr lo # xs) =
     (if 0xD800 \<le> hi \<and> hi < 0xDC00 \<and> 0xDC00 \<le> lo \<and> lo < 0xE000
      then utf8 (0x10000 + (hi - 0xD800) * 1024 + (lo - 0xDC00)) @ encodeItems xs
      else utf8 hi @ encodeItems (Inr lo # xs))"
| "encodeItems (Inr u # xs) = utf8 u @ encodeItems xs"

definition simpleEscape :: "char \<Rightarrow> char option" where
  "simpleEscape c =
     (if c = DQ then Some DQ
      else if c = BSL then Some BSL
      else if c = CHR ''/'' then Some (CHR ''/'')
      else if c = CHR ''b'' then Some (CHR 0x08)
      else if c = CHR ''f'' then Some (CHR 0x0C)
      else if c = CHR ''n'' then Some (CHR 0x0A)
      else if c = CHR ''r'' then Some (CHR 0x0D)
      else if c = CHR ''t'' then Some (CHR 0x09)
      else None)"

datatype strState = SNormal | SEscape | SUnicode "nat list"

text \<open>
  The text after an opening double quote, up to the closing one: the items read
  (in reverse) and the rest of the input. Control characters must be escaped.
\<close>

fun parseStringBody :: "strState \<Rightarrow> (char + nat) list \<Rightarrow> string \<Rightarrow> (string \<times> string) option" where
  "parseStringBody st acc [] = None"
| "parseStringBody SNormal acc (c # cs) =
     (if c = DQ then Some (encodeItems (rev acc), cs)
      else if c = BSL then parseStringBody SEscape acc cs
      else if (of_char c :: nat) < 0x20 then None
      else parseStringBody SNormal (Inl c # acc) cs)"
| "parseStringBody SEscape acc (c # cs) =
     (if c = CHR ''u'' then parseStringBody (SUnicode []) acc cs
      else (case simpleEscape c of
              None \<Rightarrow> None
            | Some e \<Rightarrow> parseStringBody SNormal (Inl e # acc) cs))"
| "parseStringBody (SUnicode ds) acc (c # cs) =
     (case hexVal c of
        None \<Rightarrow> None
      | Some h \<Rightarrow>
          (if length ds = 3
           then parseStringBody SNormal (Inr (foldl (\<lambda>a d. 16 * a + d) 0 (ds @ [h])) # acc) cs
           else parseStringBody (SUnicode (ds @ [h])) acc cs))"

text \<open>
  A number literal: an optional minus sign, an integer part without a leading zero, an
  optional fraction and an optional exponent.
\<close>

definition parseNumber :: "string \<Rightarrow> (rat \<times> string) option" where
  "parseNumber s =
     (let neg = startsWith s ''-'';
          s1 = (if neg then drop 1 s else s);
          ip = takeWhile isDigit s1;
          s2 = dropWhile isDigit s1
      in if ip = [] \<or> (1 < length ip \<and> hd ip = CHR ''0'') then None
         else
           let hasFrac = startsWith s2 ''.'';
               fp = (if hasFrac then takeWhile isDigit (drop 1 s2) else []);
               s3 = (if hasFrac then dropWhile isDigit (drop 1 s2) else s2)
           in if hasFrac \<and> fp = [] then None
              else
                let hasExp = (startsWith s3 ''e'' \<or> startsWith s3 ''E'');
                    s4 = (if hasExp then drop 1 s3 else s3);
                    eneg = (hasExp \<and> startsWith s4 ''-'');
                    s5 = (if hasExp \<and> (startsWith s4 ''-'' \<or> startsWith s4 ''+'') then drop 1 s4 else s4);
                    ep = (if hasExp then takeWhile isDigit s5 else []);
                    s6 = (if hasExp then dropWhile isDigit s5 else s3)
                in if hasExp \<and> ep = [] then None
                   else
                     let mant = (of_nat (digitsVal (ip @ fp)) :: rat) / 10 ^ length fp;
                         scaled = (if eneg then mant / 10 ^ digitsVal ep else mant * 10 ^ digitsVal ep)
                     in Some (if neg then - scaled else scaled, s6))"

text \<open>
  The recursive descent over values, array elements and object members. The fuel, a
  list, bounds the number of calls; every call but the first follows the reading of at
  least one character, so a list twice as long as the input (plus two) is enough.
\<close>

fun parseValue :: "char list \<Rightarrow> string \<Rightarrow> (json \<times> string) option"
  and parseElements :: "char list \<Rightarrow> string \<Rightarrow> (json list \<times> string) option"
  and parseMembers :: "char list \<Rightarrow> string \<Rightarrow> ((string \<times> json) list \<times> string) option"
where
  "parseValue [] s = None"
| "parseValue (f # n) s =
     (case s of
        [] \<Rightarrow> None
      | c # cs \<Rightarrow>
          if c = CHR ''['' then
            (if startsWith (skipWs cs) '']'' then Some (JArr [], drop 1 (skipWs cs))
             else (case parseElements n (skipWs cs) of
                     None \<Rightarrow> None
                   | Some r \<Rightarrow> Some (JArr (fst r), snd r)))
          else if c = CHR ''{'' then
            (if startsWith (skipWs cs) ''}'' then Some (JObj [], drop 1 (skipWs cs))
             else (case parseMembers n (skipWs cs) of
                     None \<Rightarrow> None
                   | Some r \<Rightarrow> Some (JObj (fst r), snd r)))
          else if c = DQ then
            (case parseStringBody SNormal [] cs of
               None \<Rightarrow> None
             | Some r \<Rightarrow> Some (JStr (fst r), snd r))
          else if startsWith s ''true'' then Some (JBool True, drop 4 s)
          else if startsWith s ''false'' then Some (JBool False, drop 5 s)
          else if startsWith s ''null'' then Some (JNull, drop 4 s)
          else (case parseNumber s of
                  None \<Rightarrow> None
                | Some r \<Rightarrow> Some (JNum (fst r), snd r)))"
| "parseElements [] s = None"
| "parseElements (f # n) s =
     (case parseValue n s of
        None \<Rightarrow> None
      | Some r \<Rightarrow>
          (let rest = skipWs (snd r) in
           if startsWith rest '']'' then Some ([fst r], drop 1 rest)
           else if startsWith rest '','' then
             (case parseElements n (skipWs (drop 1 rest)) of
                None \<Rightarrow> None
              | Some r' \<Rightarrow> Some (fst r # fst r', snd r'))
           else None))"
| "parseMembers [] s = None"
| "parseMembers (f # n) s =
     (case s of
        [] \<Rightarrow> None
      | c # cs \<Rightarrow>
          if c \<noteq> DQ then None
          else (case parseStringBody SNormal [] cs of
                  None \<Rightarrow> None
                | Some k \<Rightarrow>
                    (let afterKey = skipWs (snd k) in
                     if \<not> startsWith afterKey '':'' then None
                     else (case parseValue n (skipWs (drop 1 afterKey)) of
                             None \<Rightarrow> None
                           | Some r \<Rightarrow>
                               (let rest = skipWs (snd r) in
                                if startsWith rest ''}'' then Some ([(fst k, fst r)], drop 1 rest)
                                else if startsWith rest '','' then
                                  (case parseMembers n (skipWs (drop 1 rest)) of
                                     None \<Rightarrow> None
                                   | Some r' \<Rightarrow> Some ((fst k, fst r) # fst r', snd r'))
                                else None)))))"

text \<open>
  \<^verbatim>\<open>JSON.parse(text)\<close>: one value between optional white space; \<open>None\<close> stands for the
  \<^verbatim>\<open>SyntaxError\<close> the runtime throws.
\<close>

definition JSON_parse :: "string \<Rightarrow> json option" where
  "JSON_parse s =
     (case parseValue (s @ s @ ''  '') (skipWs s) of
        None \<Rightarrow> None
      | Some r \<Rightarrow> if skipWs (snd r) = [] then Some (fst r) else None)"

section \<open>The runtime the service runs in\<close>

text \<open>
  What the service takes from its environment and the source does not fix:
  the offset of local time from UTC, in minutes (a fixed offset: daylight saving changes are
  not modelled); the result of \<^verbatim>\<open>new Date(s)\<close> on a string outside the ISO forms of
  ECMAScript, as a time value in milliseconds (\<open>None\<close> is an invalid date); the text of a
  number that is not an integer; the number a string converts to (\<open>None\<close> is \<^verbatim>\<open>NaN\<close>);
  the constant \<^verbatim>\<open>now\<close>, taken from the clock once when the module is loaded
  (line 31); the clock itself, \<^verbatim>\<open>getCurrentTimestamp\<close>, as the text it returns at its
  n-th call; and the n-th unique code: the result of \<^verbatim>\<open>uuidv4()\<close>, and the text
  \<^verbatim>\<open>${Date.now()}_${Math.random().toString(36).slice(2, 8)}\<close> of lines 895 and 912.
\<close>

record runtime =
  tzOffsetMinutes :: int
  dateParseOther :: "string \<Rightarrow> int option"
  fractionToString :: "rat \<Rightarrow> string"
  stringToNumber :: "string \<Rightarrow> rat option"
  now :: string
  clock :: "nat \<Rightarrow> string"
  uuidv4 :: "nat \<Rightarrow> string"
  stampCode :: "nat \<Rightarrow> string"

text \<open>\<^verbatim>\<open>String(x)\<close> of a number: an integer is its decimal numeral.\<close>

definition numberToString :: "runtime \<Rightarrow> rat \<Rightarrow> string" where
  "numberToString rt r =
     (if r = of_int \<lfloor>r\<rfloor> \<and> \<bar>r\<bar> < 10 ^ 21 then showInt \<lfloor>r\<rfloor> else fractionToString rt r)"

text \<open>
  \<^verbatim>\<open>String(x)\<close> and \<^verbatim>\<open>xs.join(sep)\<close> on parsed values: \<^verbatim>\<open>join\<close> writes \<^verbatim>\<open>null\<close> as the
  empty string, a nested array is joined with commas, an object is \<^verbatim>\<open>[object Object]\<close>.
\<close>

fun jsToString :: "runtime \<Rightarrow> json \<Rightarrow> string"
  and joinElems :: "runtime \<Rightarrow> string \<Rightarrow> json list \<Rightarrow> string"
  and elemText :: "runtime \<Rightarrow> json \<Rightarrow> string"
where
  "jsToString rt JNull = ''null''"
| "jsToString rt (JBool b) = (if b then ''true'' else ''false'')"
| "jsToString rt (JNum r) = numberToString rt r"
| "jsToString rt (JStr s) = s"
| "jsToString rt (JArr xs) = joinElems rt '','' xs"
| "jsToString rt (JObj ms) = ''[object Object]''"
| "joinElems rt sep [] = []"
| "joinElems rt sep [x] = elemText rt x"
| "joinElems rt sep (x # y # ys) = elemText rt x @ sep @ joinElems rt sep (y # ys)"
| "elemText rt x = (if x = JNull then [] else jsToString rt x)"

section \<open>The summary generator\<close>



section \<open>The data model\<close>

text \<open>
  The rows of the six tables the service reads and writes, with the columns the service
  names. A nullable column is an \<open>option\<close>. The frequency of an item is the enumeration
  \<^verbatim>\<open>TrackingFrequency\<close>; a status is the text the queries compare with \<^verbatim>\<open>'active'\<close>.
\<close>

datatype TrackingFrequency = DAILY | WEEKLY | MONTHLY

record TrackCategory =
  c_id :: nat
  c_name :: string
  c_status :: string

record TrackItem =
  i_id :: nat
  i_category_id :: nat
  i_code :: string
  i_name :: string
  i_frequency :: TrackingFrequency
  i_status :: string
  i_created_date :: string
  i_updated_date :: string

record TrackItemEntry =
  e_id :: nat
  e_user_id :: string
  e_patient_id :: nat
  e_track_item_id :: nat
  e_date :: string
  e_selected :: nat
  e_created_date :: string
  e_updated_date :: string

record Question =
  q_id :: nat
  q_item_id :: nat
  q_code :: string
  q_text :: string
  q_type :: string
  q_required :: nat
  q_summary_template :: "string option"
  q_status :: string
  q_created_date :: string
  q_updated_date :: string
  q_parent_question_id :: "nat option"
  q_display_condition :: "string option"

record ResponseOption =
  o_id :: nat
  o_question_id :: nat
  o_code :: "string option"
  o_text :: string
  o_status :: "string option"
  o_created_date :: string
  o_updated_date :: string

record TrackResponse =
  r_id :: nat
  r_user_id :: string
  r_patient_id :: nat
  r_question_id :: nat
  r_track_item_entry_id :: nat
  r_answer :: string
  r_created_date :: string
  r_updated_date :: string

record Patient =
  p_id :: nat
  p_user_id :: string

section \<open>Visibility of a question\<close>

text \<open>
  Modelled from the spec: the enumerations \<^verbatim>\<open>QuestionCondition\<close> and \<^verbatim>\<open>QuestionType\<close> of
  \<^verbatim>\<open>constants/trackTypes\<close>, which is not among the sources. The keys of a display
  condition are those the specification lists (section 4.4); the question types are the
  texts the service compares them with (lines 787 and 807).
\<close>

definition PARENT_RES_EXISTS :: string where "PARENT_RES_EXISTS = ''parent_response_exists''"
definition cond_EQ :: string where "cond_EQ = ''eq''"
definition cond_NOT_EQ :: string where "cond_NOT_EQ = ''not_eq''"
definition cond_GT :: string where "cond_GT = ''gt''"
definition cond_GTE :: string where "cond_GTE = ''gte''"
definition cond_LT :: string where "cond_LT = ''lt''"
definition cond_LTE :: string where "cond_LTE = ''lte''"
definition cond_IN :: string where "cond_IN = ''in''"
definition cond_NOT_IN :: string where "cond_NOT_IN = ''not_in''"

definition type_BOOLEAN :: string where "type_BOOLEAN = ''boolean''"
definition type_MCQ :: string where "type_MCQ = ''mcq''"
definition type_MSQ :: string where "type_MSQ = ''msq''"

text \<open>
  The memo table \<^verbatim>\<open>visibilityCache\<close> is an optional argument: \<open>None\<close> when the caller
  passes none. The function updates it in place; the model returns it. The table is a
  list of entries, the latest first.
\<close>

type_synonym visibilityCache = "(nat \<times> bool) list"

definition cacheGet :: "visibilityCache option \<Rightarrow> nat \<Rightarrow> bool option" where
  "cacheGet cache k = (case cache of None \<Rightarrow> None | Some m \<Rightarrow> map_of m k)"

definition cacheSet :: "visibilityCache option \<Rightarrow> nat \<Rightarrow> bool \<Rightarrow> visibilityCache option" where
  "cacheSet cache k v = (case cache of None \<Rightarrow> None | Some m \<Rightarrow> Some ((k, v) # m))"

text \<open>
  The guard of line 617: a question is conditional when its \<^verbatim>\<open>parent_question_id\<close> is
  truthy (not null, not 0) and its \<^verbatim>\<open>display_condition\<close> is truthy (not null, not the empty
  string). \<open>conditionOf\<close> returns both then, and \<open>None\<close> otherwise.
\<close>

definition conditionOf :: "Question \<Rightarrow> (nat \<times> string) option" where
  "conditionOf q =
     (case q_parent_question_id q of
        None \<Rightarrow> None
      | Some pid \<Rightarrow>
          if pid = 0 then None
          else (case q_display_condition q of
                  None \<Rightarrow> None
                | Some c \<Rightarrow> if c = [] then None else Some (pid, c)))"

text \<open>\<^verbatim>\<open>allQuestions?.find(question => question.id === q.parent_question_id)\<close> (line 623).\<close>

definition findParent :: "Question list option \<Rightarrow> nat \<Rightarrow> Question option" where
  "findParent allQuestions pid =
     (case allQuestions of
        None \<Rightarrow> None
      | Some qs \<Rightarrow> find (\<lambda>question. q_id question = pid) qs)"

text \<open>
  Lines 632 to 644: the answer of the parent, parsed. \<open>None\<close> is \<^verbatim>\<open>undefined\<close>; an answer
  that is not JSON stays the text it is.
\<close>

definition parseParentAnswer :: "string option \<Rightarrow> json option" where
  "parseParentAnswer parentAnswer =
     (case parentAnswer of
        None \<Rightarrow> None
      | Some s \<Rightarrow> (case JSON_parse s of Some v \<Rightarrow> Some v | None \<Rightarrow> Some (JStr s)))"

text \<open>Lines 648 to 653: the test of \<^verbatim>\<open>parent_response_exists\<close>.\<close>

definition parentResponseExists :: "json option \<Rightarrow> bool" where
  "parentResponseExists parsed =
     (parsed \<noteq> None \<and> parsed \<noteq> Some JNull \<and> parsed \<noteq> Some (JStr [])
      \<and> (case parsed of Some (JArr xs) \<Rightarrow> 0 < length xs | _ \<Rightarrow> True))"

text \<open>
  \<^verbatim>\<open>cond[key]\<close> on a parsed condition that is not \<^verbatim>\<open>null\<close>: the member of an object
  (\<open>None\<close> is \<^verbatim>\<open>undefined\<close>); none of the keys is a property of an array, a string, a
  number or a boolean.
\<close>

definition getProp :: "json \<Rightarrow> string \<Rightarrow> json option" where
  "getProp cond key = (case cond of JObj ms \<Rightarrow> map_of (rev ms) key | _ \<Rightarrow> None)"

text \<open>
  \<^verbatim>\<open>a === b\<close> and the comparison of \<^verbatim>\<open>Array.includes\<close> on parsed values: primitives by value;
  two arrays or objects that come from different calls of \<^verbatim>\<open>JSON.parse\<close> are never the
  same object.
\<close>

fun strictEq :: "json \<Rightarrow> json \<Rightarrow> bool" where
  "strictEq JNull JNull = True"
| "strictEq (JBool a) (JBool b) = (a = b)"
| "strictEq (JNum a) (JNum b) = (a = b)"
| "strictEq (JStr a) (JStr b) = (a = b)"
| "strictEq a b = False"

definition arrayIncludes :: "json list \<Rightarrow> json \<Rightarrow> bool" where
  "arrayIncludes xs v = list_ex (\<lambda>x. strictEq x v) xs"

text \<open>\<^verbatim>\<open>Number(x)\<close>; \<open>None\<close> is \<^verbatim>\<open>NaN\<close>.\<close>

definition toNumber :: "runtime \<Rightarrow> json \<Rightarrow> rat option" where
  "toNumber rt j =
     (case j of
        JNull \<Rightarrow> Some 0
      | JBool b \<Rightarrow> Some (if b then 1 else 0)
      | JNum r \<Rightarrow> Some r
      | JStr s \<Rightarrow> stringToNumber rt s
      | JArr xs \<Rightarrow> stringToNumber rt (jsToString rt j)
      | JObj ms \<Rightarrow> None)"

definition numCompare :: "(rat \<Rightarrow> rat \<Rightarrow> bool) \<Rightarrow> rat option \<Rightarrow> rat option \<Rightarrow> bool" where
  "numCompare rel a b =
     (case a of None \<Rightarrow> False | Some x \<Rightarrow> (case b of None \<Rightarrow> False | Some y \<Rightarrow> rel x y))"

text \<open>
  Lines 667 to 689: for a parent of type boolean, mcq or msq, an answer that is the text
  of one of the parent's options is replaced by the code of the first such option.
\<close>

definition codeJson :: "ResponseOption \<Rightarrow> json" where
  "codeJson opt = (case o_code opt of None \<Rightarrow> JNull | Some c \<Rightarrow> JStr c)"

definition toOptionCode :: "ResponseOption list \<Rightarrow> json \<Rightarrow> json" where
  "toOptionCode parentOptions answer =
     (case answer of
        JStr s \<Rightarrow> (case find (\<lambda>opt. o_text opt = s) parentOptions of
                     None \<Rightarrow> answer
                   | Some opt \<Rightarrow> codeJson opt)
      | _ \<Rightarrow> answer)"

definition mapToOptionCodes ::
  "Question option \<Rightarrow> ResponseOption list option \<Rightarrow> nat \<Rightarrow> json \<Rightarrow> json" where
  "mapToOptionCodes parentQuestion allOptions pid parsed =
     (case parentQuestion of
        None \<Rightarrow> parsed
      | Some p \<Rightarrow>
          (case allOptions of
             None \<Rightarrow> parsed
           | Some opts \<Rightarrow>
               if q_type p \<noteq> []
                  \<and> (q_type p = type_BOOLEAN \<or> q_type p = type_MCQ \<or> q_type p = type_MSQ)
                  \<and> opts \<noteq> []
               then
                 (let parentOptions = filter (\<lambda>opt. o_question_id opt = pid) opts in
                  case parsed of
                    JArr xs \<Rightarrow> JArr (map (toOptionCode parentOptions) xs)
                  | JStr s \<Rightarrow> toOptionCode parentOptions parsed
                  | _ \<Rightarrow> parsed)
               else parsed))"

text \<open>Lines 691 to 720: the comparison operators, tried in the order of the source.\<close>

definition compareCondition :: "runtime \<Rightarrow> json \<Rightarrow> json \<Rightarrow> bool" where
  "compareCondition rt cond parsed =
     (let numericAnswer = toNumber rt parsed in
      case getProp cond cond_EQ of
        Some v \<Rightarrow> (case parsed of JArr xs \<Rightarrow> arrayIncludes xs v | _ \<Rightarrow> strictEq parsed v)
      | None \<Rightarrow>
      (case getProp cond cond_NOT_EQ of
        Some v \<Rightarrow> (case parsed of JArr xs \<Rightarrow> \<not> arrayIncludes xs v | _ \<Rightarrow> \<not> strictEq parsed v)
      | None \<Rightarrow>
      (case getProp cond cond_GT of
        Some v \<Rightarrow> numCompare (\<lambda>x y. x > y) numericAnswer (toNumber rt v)
      | None \<Rightarrow>
      (case getProp cond cond_GTE of
        Some v \<Rightarrow> numCompare (\<lambda>x y. x \<ge> y) numericAnswer (toNumber rt v)
      | None \<Rightarrow>
      (case getProp cond cond_LT of
        Some v \<Rightarrow> numCompare (\<lambda>x y. x < y) numericAnswer (toNumber rt v)
      | None \<Rightarrow>
      (case getProp cond cond_LTE of
        Some v \<Rightarrow> numCompare (\<lambda>x y. x \<le> y) numericAnswer (toNumber rt v)
      | None \<Rightarrow>
      (case getProp cond cond_IN of
        Some values \<Rightarrow>
          (case values of
             JArr vals \<Rightarrow>
               (case parsed of
                  JArr xs \<Rightarrow> list_ex (\<lambda>val. arrayIncludes xs val) vals
                | _ \<Rightarrow> arrayIncludes vals parsed)
           | _ \<Rightarrow> False)
      | None \<Rightarrow>
      (case getProp cond cond_NOT_IN of
        Some values \<Rightarrow>
          (case values of
             JArr vals \<Rightarrow>
               (case parsed of
                  JArr xs \<Rightarrow> \<not> list_ex (\<lambda>val. arrayIncludes xs val) vals
                | _ \<Rightarrow> \<not> arrayIncludes vals parsed)
           | _ \<Rightarrow> False)
      | None \<Rightarrow> True))))))))"

text \<open>
  Lines 629 to 725, the body of the \<^verbatim>\<open>try\<close> and its \<^verbatim>\<open>catch\<close>: the result for a
  conditional question whose parent is visible or unknown. A condition that does not
  parse throws in \<^verbatim>\<open>JSON.parse\<close>, a condition that parses to \<^verbatim>\<open>null\<close> throws at the first
  \<^verbatim>\<open>cond[...]\<close>; both are caught and give \<^verbatim>\<open>true\<close>.
\<close>

definition evalCondition ::
  "runtime \<Rightarrow> nat \<Rightarrow> string \<Rightarrow> Question option \<Rightarrow> (nat \<rightharpoonup> string) \<Rightarrow> ResponseOption list option \<Rightarrow> bool" where
  "evalCondition rt pid display_condition parentQuestion answers allOptions =
     (case JSON_parse display_condition of
        None \<Rightarrow> True
      | Some cond \<Rightarrow>
          (let parsedParentAnswer = parseParentAnswer (answers pid) in
           if cond = JNull then True
           else if getProp cond PARENT_RES_EXISTS = Some (JBool True)
             then parentResponseExists parsedParentAnswer
           else (case parsedParentAnswer of
                   None \<Rightarrow> False
                 | Some parsed \<Rightarrow>
                     if parsed = JNull then False
                     else compareCondition rt cond
                            (mapToOptionCodes parentQuestion allOptions pid parsed))))"

text \<open>
  \<^verbatim>\<open>isQuestionVisible\<close> (lines 605 to 729). The function calls itself on the parent before it
  looks at the condition; on a cycle of parents it never returns (the runtime ends the
  call with a stack overflow), which is the value \<open>None\<close> here. The result is the
  visibility together with the memo table after the call.
\<close>

partial_function (option) isQuestionVisible ::
  "runtime \<Rightarrow> Question \<Rightarrow> (nat \<rightharpoonup> string) \<Rightarrow> Question list option \<Rightarrow> ResponseOption list option
     \<Rightarrow> visibilityCache option \<Rightarrow> (bool \<times> visibilityCache option) option" where
  "isQuestionVisible rt q answers allQuestions allOptions visibilityCache =
     (case cacheGet visibilityCache (q_id q) of
        Some cached \<Rightarrow> Some (cached, visibilityCache)
      | None \<Rightarrow>
          (case conditionOf q of
             None \<Rightarrow> Some (True, cacheSet visibilityCache (q_id q) True)
           | Some pc \<Rightarrow>
               (case findParent allQuestions (fst pc) of
                  None \<Rightarrow>
                    (let result = evalCondition rt (fst pc) (snd pc) None answers allOptions
                     in Some (result, cacheSet visibilityCache (q_id q) result))
                | Some parentQuestion \<Rightarrow>
                    Option.bind
                      (isQuestionVisible rt parentQuestion answers allQuestions allOptions visibilityCache)
                      (\<lambda>pv.
                         if \<not> fst pv then Some (False, cacheSet (snd pv) (q_id q) False)
                         else
                           (let result = evalCondition rt (fst pc) (snd pc) (Some parentQuestion)
                                           answers allOptions
                            in Some (result, cacheSet (snd pv) (q_id q) result))))))"

declare isQuestionVisible.simps [code]

text \<open>
  A chain of conditional questions below \<open>p\<close>: the first is a child of \<open>p\<close>, each
  further one a child of the one before it, where the parent of a question is the one
  line 623 finds.
\<close>

fun descendsFrom :: "Question list option \<Rightarrow> Question \<Rightarrow> Question list \<Rightarrow> bool" where
  "descendsFrom allQuestions p [] = True"
| "descendsFrom allQuestions p (q # qs) =
     ((case conditionOf q of
         None \<Rightarrow> False
       | Some pc \<Rightarrow> findParent allQuestions (fst pc) = Some p)
      \<and> descendsFrom allQuestions q qs)"

section \<open>Dates of the JavaScript runtime\<close>

text \<open>
  A \<^verbatim>\<open>Date\<close> is a time value, the milliseconds since 1970-01-01T00:00:00Z, or it is
  invalid (the time value \<^verbatim>\<open>NaN\<close>). The day and year arithmetic is that of ECMAScript
  (section "Time Values and Time Range"), on the integers.
\<close>

datatype jsDate = InvalidDate | TimeValue int

definition msPerDay :: int where
  "msPerDay = 86400000"

definition Day :: "int \<Rightarrow> int" where
  "Day t = t div msPerDay"

definition TimeWithinDay :: "int \<Rightarrow> int" where
  "TimeWithinDay t = t mod msPerDay"

definition DaysInYear :: "int \<Rightarrow> int" where
  "DaysInYear y =
     (if y mod 4 \<noteq> 0 then 365
      else if y mod 100 \<noteq> 0 then 366
      else if y mod 400 \<noteq> 0 then 365
      else 366)"

text \<open>The day number of the first day of year \<open>y\<close>.\<close>

definition DayFromYear :: "int \<Rightarrow> int" where
  "DayFromYear y = 365 * (y - 1970) + (y - 1969) div 4 - (y - 1901) div 100 + (y - 1601) div 400"

text \<open>One year further is \<open>DaysInYear\<close> days further.\<close>

lemma div_succ:
  fixes x k :: int
  assumes "0 < k"
  shows "(x + 1) div k = x div k + (if (x + 1) mod k = 0 then 1 else 0)"
proof (cases "x mod k + 1 = k")
  case True
  have "x + 1 = k * (x div k) + (x mod k + 1)" by simp
  also have "\<dots> = k * (x div k) + k" using True by simp
  also have "\<dots> = k * (x div k + 1) + 0" by (simp add: distrib_left)
  finally have e: "x + 1 = k * (x div k + 1) + 0" .
  have z: "(0::int) \<le> 0" "0 < k" using assms by simp_all
  from int_div_pos_eq[OF e z] int_mod_pos_eq[OF e z] show ?thesis by simp
next
  case False
  have "0 \<le> x mod k" "x mod k < k" using assms by simp_all
  with False have r: "0 \<le> x mod k + 1" "x mod k + 1 < k" by linarith+
  have "x + 1 = k * (x div k) + (x mod k + 1)" by simp
  from int_div_pos_eq[OF this r] int_mod_pos_eq[OF this r] \<open>0 \<le> x mod k\<close> show ?thesis by simp
qed

lemma shift_mod4: "(y - 1968) mod 4 = (y::int) mod 4"
  using mod_mult_self2[of y 4 "- 492"] by simp

lemma shift_mod100: "(y - 1900) mod 100 = (y::int) mod 100"
  using mod_mult_self2[of y 100 "- 19"] by simp

lemma shift_mod400: "(y - 1600) mod 400 = (y::int) mod 400"
  using mod_mult_self2[of y 400 "- 4"] by simp

lemma mod100_mod4: "(y::int) mod 100 = 0 \<Longrightarrow> y mod 4 = 0"
  using mod_mod_cancel[of 4 100 y] by simp

lemma mod400_mod100: "(y::int) mod 400 = 0 \<Longrightarrow> y mod 100 = 0"
  using mod_mod_cancel[of 100 400 y] by simp

lemma DayFromYear_Suc: "DayFromYear (y + 1) = DayFromYear y + DaysInYear y"
proof -
  have a: "(y + 1 - 1969) div 4 = (y - 1969) div 4 + (if y mod 4 = 0 then 1 else 0)"
    using div_succ[of 4 "y - 1969"] shift_mod4[of y] by (simp add: algebra_simps)
  have b: "(y + 1 - 1901) div 100 = (y - 1901) div 100 + (if y mod 100 = 0 then 1 else 0)"
    using div_succ[of 100 "y - 1901"] shift_mod100[of y] by (simp add: algebra_simps)
  have c: "(y + 1 - 1601) div 400 = (y - 1601) div 400 + (if y mod 400 = 0 then 1 else 0)"
    using div_succ[of 400 "y - 1601"] shift_mod400[of y] by (simp add: algebra_simps)
  show ?thesis
    unfolding DayFromYear_def DaysInYear_def a b c
    using mod100_mod4[of y] mod400_mod100[of y] by auto
qed

lemma DaysInYear_bounds: "365 \<le> DaysInYear y \<and> DaysInYear y \<le> 366"
  by (simp add: DaysInYear_def)

lemma DayFromYear_pred: "DayFromYear (y - 1) = DayFromYear y - DaysInYear (y - 1)"
  using DayFromYear_Suc[of "y - 1"] by simp

text \<open>
  \<^verbatim>\<open>YearFromTime\<close>: the largest year whose first day is not after the given day, found
  by stepping from an estimate.
\<close>

function yearSearch :: "int \<Rightarrow> int \<Rightarrow> int" where
  "yearSearch day y =
     (if day < DayFromYear y then yearSearch day (y - 1)
      else if DayFromYear (y + 1) \<le> day then yearSearch day (y + 1)
      else y)"
  by pat_completeness auto
termination
proof (relation "measure (\<lambda>(day, y). nat \<bar>DayFromYear y + DayFromYear (y + 1) - (2 * day + 1)\<bar>)", goal_cases)
  case 1
  show ?case by simp
next
  case (2 day y)
  obtain n m where n: "DayFromYear (y + 1) = DayFromYear y + n" "365 \<le> n" "n \<le> 366"
    and m: "DayFromYear (y - 1) = DayFromYear y - m" "365 \<le> m" "m \<le> 366"
    using DayFromYear_Suc[of y] DayFromYear_pred[of y] DaysInYear_bounds by blast
  have "DayFromYear (y - 1 + 1) = DayFromYear y" by simp
  with 2 n m show ?case by simp
next
  case (3 day y)
  obtain n m where n: "DayFromYear (y + 1) = DayFromYear y + n" "365 \<le> n" "n \<le> 366"
    and m: "DayFromYear (y + 1 + 1) = DayFromYear (y + 1) + m" "365 \<le> m" "m \<le> 366"
    using DayFromYear_Suc[of y] DayFromYear_Suc[of "y + 1"] DaysInYear_bounds by blast
  with 3 show ?case by simp
qed

declare yearSearch.simps [simp del]

definition YearFromDay :: "int \<Rightarrow> int" where
  "YearFromDay day = yearSearch day (1970 + day div 365)"

definition InLeapYear :: "int \<Rightarrow> bool" where
  "InLeapYear y = (DaysInYear y = 366)"

text \<open>The day within the year on which month \<open>m\<close> (0 to 11) starts.\<close>

definition monthStart :: "bool \<Rightarrow> int \<Rightarrow> int" where
  "monthStart leap m =
     (if m \<le> 0 then 0
      else if m = 1 then 31
      else (if leap then 1 else 0) +
        (if m = 2 then 59 else if m = 3 then 90 else if m = 4 then 120 else if m = 5 then 151
         else if m = 6 then 181 else if m = 7 then 212 else if m = 8 then 243
         else if m = 9 then 273 else if m = 10 then 304 else if m = 11 then 334 else 365))"

definition MonthFromDay :: "int \<Rightarrow> int" where
  "MonthFromDay day =
     (let y = YearFromDay day; d = day - DayFromYear y; leap = InLeapYear y
      in if d < monthStart leap 1 then 0
         else if d < monthStart leap 2 then 1
         else if d < monthStart leap 3 then 2
         else if d < monthStart leap 4 then 3
         else if d < monthStart leap 5 then 4
         else if d < monthStart leap 6 then 5
         else if d < monthStart leap 7 then 6
         else if d < monthStart leap 8 then 7
         else if d < monthStart leap 9 then 8
         else if d < monthStart leap 10 then 9
         else if d < monthStart leap 11 then 10
         else 11)"

definition DateFromDay :: "int \<Rightarrow> int" where
  "DateFromDay day =
     (let y = YearFromDay day
      in day - DayFromYear y - monthStart (InLeapYear y) (MonthFromDay day) + 1)"

text \<open>\<^verbatim>\<open>WeekDay\<close>: 0 is Sunday; day 0 was a Thursday.\<close>

definition WeekDay :: "int \<Rightarrow> int" where
  "WeekDay day = (day + 4) mod 7"

text \<open>\<^verbatim>\<open>MakeDay(year, month, date)\<close>: months and dates out of range carry over.\<close>

definition MakeDay :: "int \<Rightarrow> int \<Rightarrow> int \<Rightarrow> int" where
  "MakeDay year month date =
     (let ym = year + month div 12; mn = month mod 12
      in DayFromYear ym + monthStart (InLeapYear ym) mn + date - 1)"

definition TimeClip :: "int \<Rightarrow> jsDate" where
  "TimeClip t = (if \<bar>t\<bar> \<le> 8640000000000000 then TimeValue t else InvalidDate)"

definition LocalTime :: "runtime \<Rightarrow> int \<Rightarrow> int" where
  "LocalTime rt t = t + tzOffsetMinutes rt * 60000"

definition UTC :: "runtime \<Rightarrow> int \<Rightarrow> int" where
  "UTC rt t = t - tzOffsetMinutes rt * 60000"

text \<open>
  The methods of \<^verbatim>\<open>Date\<close> the service calls. They read the local time; \<open>None\<close> is the
  \<^verbatim>\<open>NaN\<close> an invalid date answers.
\<close>

definition localDay :: "runtime \<Rightarrow> jsDate \<Rightarrow> int option" where
  "localDay rt d = (case d of InvalidDate \<Rightarrow> None | TimeValue t \<Rightarrow> Some (Day (LocalTime rt t)))"

definition getFullYear :: "runtime \<Rightarrow> jsDate \<Rightarrow> int option" where
  "getFullYear rt d = map_option YearFromDay (localDay rt d)"

definition getMonth :: "runtime \<Rightarrow> jsDate \<Rightarrow> int option" where
  "getMonth rt d = map_option MonthFromDay (localDay rt d)"

definition getDate :: "runtime \<Rightarrow> jsDate \<Rightarrow> int option" where
  "getDate rt d = map_option DateFromDay (localDay rt d)"

definition getDay :: "runtime \<Rightarrow> jsDate \<Rightarrow> int option" where
  "getDay rt d = map_option WeekDay (localDay rt d)"

text \<open>
  \<^verbatim>\<open>new Date(year, month, date)\<close>: local midnight of that day; a year from 0 to 99 means
  1900 to 1999; a \<^verbatim>\<open>NaN\<close> argument gives an invalid date.
\<close>

definition newDateYMD :: "runtime \<Rightarrow> int option \<Rightarrow> int option \<Rightarrow> int option \<Rightarrow> jsDate" where
  "newDateYMD rt year month date =
     (case year of
        None \<Rightarrow> InvalidDate
      | Some y \<Rightarrow>
          (case month of
             None \<Rightarrow> InvalidDate
           | Some m \<Rightarrow>
               (case date of
                  None \<Rightarrow> InvalidDate
                | Some dt \<Rightarrow>
                    (let yr = (if 0 \<le> y \<and> y \<le> 99 then 1900 + y else y)
                     in TimeClip (UTC rt (MakeDay yr m dt * msPerDay))))))"

text \<open>\<^verbatim>\<open>d.setDate(dt)\<close>: the day of the month is replaced, the time of day kept.\<close>

definition setDate :: "runtime \<Rightarrow> jsDate \<Rightarrow> int option \<Rightarrow> jsDate" where
  "setDate rt d dt =
     (case d of
        InvalidDate \<Rightarrow> InvalidDate
      | TimeValue t \<Rightarrow>
          (case dt of
             None \<Rightarrow> InvalidDate
           | Some n \<Rightarrow>
               (let lt = LocalTime rt t; day = Day lt
                in TimeClip (UTC rt (MakeDay (YearFromDay day) (MonthFromDay day) n * msPerDay
                                       + TimeWithinDay lt)))))"

subsection \<open>\<^verbatim>\<open>new Date(text)\<close>\<close>

definition twoDigits :: "string \<Rightarrow> (int \<times> string) option" where
  "twoDigits s =
     (if 2 \<le> length s \<and> list_all isDigit (take 2 s)
      then Some (int (digitsVal (take 2 s)), drop 2 s) else None)"

definition DaysInMonth :: "int \<Rightarrow> int \<Rightarrow> int" where
  "DaysInMonth y m = monthStart (InLeapYear y) m - monthStart (InLeapYear y) (m - 1)"

text \<open>
  The time of day of an ISO text after the date: \<^verbatim>\<open>THH:mm\<close>, \<^verbatim>\<open>THH:mm:ss\<close> or
  \<^verbatim>\<open>THH:mm:ss.sss\<close>, in milliseconds, and the rest of the text.
\<close>

definition isoTime :: "string \<Rightarrow> (int \<times> string) option" where
  "isoTime s =
     (if \<not> startsWith s ''T'' then None
      else (case twoDigits (drop 1 s) of
              None \<Rightarrow> None
            | Some hh \<Rightarrow>
                if \<not> startsWith (snd hh) '':'' \<or> 23 < fst hh then None
                else (case twoDigits (drop 1 (snd hh)) of
                        None \<Rightarrow> None
                      | Some mi \<Rightarrow>
                          if 59 < fst mi then None
                          else if \<not> startsWith (snd mi) '':''
                            then Some ((fst hh * 60 + fst mi) * 60000, snd mi)
                          else (case twoDigits (drop 1 (snd mi)) of
                                  None \<Rightarrow> None
                                | Some ss \<Rightarrow>
                                    if 59 < fst ss then None
                                    else
                                      (let base = ((fst hh * 60 + fst mi) * 60 + fst ss) * 1000;
                                           r = snd ss
                                       in if startsWith r ''.'' \<and> 4 \<le> length r
                                             \<and> list_all isDigit (take 3 (drop 1 r))
                                          then Some (base + int (digitsVal (take 3 (drop 1 r))), drop 4 r)
                                          else if startsWith r ''.'' then None
                                          else Some (base, r))))))"

text \<open>
  The offset an ISO text ends with, in milliseconds east of UTC: \<^verbatim>\<open>Z\<close>, \<^verbatim>\<open>+HH:mm\<close> or
  \<^verbatim>\<open>-HH:mm\<close>; the local offset when the text ends without one.
\<close>

definition isoOffset :: "runtime \<Rightarrow> string \<Rightarrow> int option" where
  "isoOffset rt s =
     (if s = [] then Some (tzOffsetMinutes rt * 60000)
      else if s = ''Z'' then Some 0
      else if (startsWith s ''+'' \<or> startsWith s ''-'') \<and> length s = 6 then
        (case twoDigits (drop 1 s) of
           None \<Rightarrow> None
         | Some hh \<Rightarrow>
             if \<not> startsWith (snd hh) '':'' \<or> 23 < fst hh then None
             else (case twoDigits (drop 1 (snd hh)) of
                     None \<Rightarrow> None
                   | Some mi \<Rightarrow>
                       if 59 < fst mi then None
                       else Some ((if startsWith s ''-'' then - 1 else 1)
                                    * (fst hh * 60 + fst mi) * 60000)))
      else None)"

text \<open>The test of line 35, \<^verbatim>\<open>/^\d{4}-\d{2}-\d{2}/\<close>.\<close>

definition isoPrefix :: "string \<Rightarrow> bool" where
  "isoPrefix s =
     (10 \<le> length s
      \<and> list_all isDigit (take 4 s) \<and> s ! 4 = CHR ''-''
      \<and> list_all isDigit (take 2 (drop 5 s)) \<and> s ! 7 = CHR ''-''
      \<and> list_all isDigit (take 2 (drop 8 s)))"

text \<open>
  The ISO forms of \<^verbatim>\<open>Date.parse\<close>: a date alone is midnight UTC; a date with a time is
  local time unless the text names an offset. \<open>None\<close> when the text is not of these forms
  or names a month, day or time out of range.
\<close>

definition isoParse :: "runtime \<Rightarrow> string \<Rightarrow> int option" where
  "isoParse rt s =
     (if \<not> isoPrefix s then None
      else
        (let y = int (digitsVal (take 4 s));
             m = int (digitsVal (take 2 (drop 5 s)));
             d = int (digitsVal (take 2 (drop 8 s)));
             rest = drop 10 s
         in if m < 1 \<or> 12 < m \<or> d < 1 \<or> DaysInMonth y m < d then None
            else if rest = [] then Some (MakeDay y (m - 1) d * msPerDay)
            else (case isoTime rest of
                    None \<Rightarrow> None
                  | Some tm \<Rightarrow>
                      (case isoOffset rt (snd tm) of
                         None \<Rightarrow> None
                       | Some off \<Rightarrow> Some (MakeDay y (m - 1) d * msPerDay + fst tm - off)))))"

text \<open>
  \<^verbatim>\<open>new Date(text)\<close>: the ISO forms as above; any other text as the runtime reads it
  (ECMAScript leaves that to the implementation).
\<close>

definition jsDateParse :: "runtime \<Rightarrow> string \<Rightarrow> jsDate" where
  "jsDateParse rt s =
     (case isoParse rt s of
        Some t \<Rightarrow> TimeClip t
      | None \<Rightarrow> (case dateParseOther rt s of None \<Rightarrow> InvalidDate | Some t \<Rightarrow> TimeClip t))"

text \<open>
  \<^verbatim>\<open>parseInt(x, 10)\<close>: leading white space, an optional sign, then the digits up to the
  first other character; \<open>None\<close> (\<^verbatim>\<open>NaN\<close>) when there is no digit.
\<close>

definition parseInt10 :: "string \<Rightarrow> int option" where
  "parseInt10 x =
     (let s = trimStart x;
          neg = startsWith s ''-'';
          s' = (if startsWith s ''-'' \<or> startsWith s ''+'' then drop 1 s else s);
          ds = takeWhile isDigit s'
      in if ds = [] then None
         else Some (if neg then - int (digitsVal ds) else int (digitsVal ds)))"

section \<open>The date helpers of the service\<close>

text \<open>\<^verbatim>\<open>x || 1\<close> on a number: 1 for \<^verbatim>\<open>NaN\<close>, \<^verbatim>\<open>undefined\<close> and 0.\<close>

definition orOne :: "int option \<Rightarrow> int" where
  "orOne x = (case x of None \<Rightarrow> 1 | Some n \<Rightarrow> if n = 0 then 1 else n)"

text \<open>An element of the destructured array; \<open>None\<close> when the array is shorter.\<close>

definition part :: "int option list \<Rightarrow> nat \<Rightarrow> int option" where
  "part ps i = (if i < length ps then ps ! i else None)"

text \<open>\<^verbatim>\<open>parseMMDDYYYY\<close> (lines 34 to 38).\<close>

definition parseMMDDYYYY :: "runtime \<Rightarrow> string \<Rightarrow> jsDate" where
  "parseMMDDYYYY rt dateStr =
     (if isoPrefix dateStr then jsDateParse rt dateStr
      else
        (let ps = map parseInt10 (splitOn (CHR ''-'') dateStr);
             mm = part ps 0; dd = part ps 1; yyyy = part ps 2
         in newDateYMD rt yyyy (Some (orOne mm - 1)) (Some (orOne dd))))"

text \<open>\<^verbatim>\<open>String(n)\<close> of the number a date method returns, and \<^verbatim>\<open>padStart(2, '0')\<close>.\<close>

definition numberText :: "int option \<Rightarrow> string" where
  "numberText n = (case n of None \<Rightarrow> ''NaN'' | Some i \<Rightarrow> showInt i)"

definition padStart2 :: "string \<Rightarrow> string" where
  "padStart2 s = replicate (2 - length s) (CHR ''0'') @ s"

text \<open>\<^verbatim>\<open>formatMMDDYYYY\<close> (lines 40 to 45).\<close>

definition formatMMDDYYYY :: "runtime \<Rightarrow> jsDate \<Rightarrow> string" where
  "formatMMDDYYYY rt d =
     (let mm = padStart2 (numberText (map_option (\<lambda>m. m + 1) (getMonth rt d)));
          dd = padStart2 (numberText (getDate rt d));
          yyyy = numberText (getFullYear rt d)
      in mm @ ''-'' @ dd @ ''-'' @ yyyy)"

text \<open>\<^verbatim>\<open>getMonday\<close> (lines 47 to 53).\<close>

definition getMonday :: "runtime \<Rightarrow> jsDate \<Rightarrow> jsDate" where
  "getMonday rt d =
     (let date = d;
          day = getDay rt date;
          diff = map_option (\<lambda>k. if k = 0 then - 6 else 1 - k) day
      in setDate rt date
           (case getDate rt date of
              None \<Rightarrow> None
            | Some a \<Rightarrow> map_option (\<lambda>b. a + b) diff))"

text \<open>\<^verbatim>\<open>normalizeDateByFrequency\<close> (lines 55 to 62).\<close>

definition normalizeDateByFrequency :: "runtime \<Rightarrow> string \<Rightarrow> TrackingFrequency \<Rightarrow> string" where
  "normalizeDateByFrequency rt dateStr frequency =
     (let date = parseMMDDYYYY rt dateStr
      in if frequency = DAILY then formatMMDDYYYY rt date
         else if frequency = WEEKLY then formatMMDDYYYY rt (getMonday rt date)
         else formatMMDDYYYY rt (newDateYMD rt (getFullYear rt date) (getMonth rt date) (Some 1)))"

text \<open>\<^verbatim>\<open>shouldCreateEntryForDate\<close> (lines 64 to 71).\<close>

definition shouldCreateEntryForDate :: "runtime \<Rightarrow> string \<Rightarrow> TrackingFrequency \<Rightarrow> bool" where
  "shouldCreateEntryForDate rt dateStr frequency =
     (let d = parseMMDDYYYY rt dateStr
      in if frequency = DAILY then True
         else if frequency = WEEKLY then getDay rt d = Some 1
         else getDate rt d = Some 1)"

text \<open>
  The text \<^verbatim>\<open>MM-DD-YYYY\<close> of a calendar date: month and day in two digits, the year as
  its decimal numeral.
\<close>

definition dateText :: "int \<Rightarrow> int \<Rightarrow> int \<Rightarrow> string" where
  "dateText y m d = padStart2 (showInt m) @ ''-'' @ padStart2 (showInt d) @ ''-'' @ showInt y"

text \<open>A date of the calendar: month 1 to 12, day 1 to the length of the month.\<close>

definition validDate :: "int \<Rightarrow> int \<Rightarrow> int \<Rightarrow> bool" where
  "validDate y m d = (1 \<le> m \<and> m \<le> 12 \<and> 1 \<le> d \<and> d \<le> DaysInMonth y m)"

text \<open>The date object of local midnight of day number \<open>n\<close>.\<close>

definition localMidnight :: "runtime \<Rightarrow> int \<Rightarrow> jsDate" where
  "localMidnight rt n = TimeValue (n * msPerDay - tzOffsetMinutes rt * 60000)"

text \<open>The day number of the Monday of the week of day \<open>n\<close>, weeks running Monday to Sunday.\<close>

definition mondayOf :: "int \<Rightarrow> int" where
  "mondayOf n = n - (WeekDay n + 6) mod 7"

text \<open>The text of the calendar date of a day number.\<close>

definition dayText :: "int \<Rightarrow> string" where
  "dayText n = dateText (YearFromDay n) (MonthFromDay n + 1) (DateFromDay n)"

section \<open>The store\<close>

text \<open>
  The tables, each a list of rows in the order of insertion, and two counters of the
  environment: the number of calls of \<^verbatim>\<open>getCurrentTimestamp\<close> so far and the number of
  unique codes drawn so far.
\<close>

record db =
  TRACK_CATEGORY :: "TrackCategory list"
  TRACK_ITEM :: "TrackItem list"
  QUESTION :: "Question list"
  RESPONSE_OPTION :: "ResponseOption list"
  TRACK_ITEM_ENTRY :: "TrackItemEntry list"
  TRACK_RESPONSE :: "TrackResponse list"
  PATIENT :: "Patient list"
  clockCalls :: nat
  codesDrawn :: nat

text \<open>
  Modelled from the spec: the operations of the model layer (\<^verbatim>\<open>BaseModel\<close> and its
  subclasses, which are not among the sources), as section 6 of the specification lists
  them: fetch the first row with given field values, insert a row and return the
  generated id, update the rows with given field values, delete the rows with given field
  values. The generated id is one more than the largest id of the table.
\<close>

definition getFirstBy :: "('a \<Rightarrow> bool) \<Rightarrow> 'a list \<Rightarrow> 'a option" where
  "getFirstBy matches rows = find matches rows"

definition updateBy :: "('a \<Rightarrow> bool) \<Rightarrow> ('a \<Rightarrow> 'a) \<Rightarrow> 'a list \<Rightarrow> 'a list" where
  "updateBy matches change rows = map (\<lambda>r. if matches r then change r else r) rows"

definition deleteBy :: "('a \<Rightarrow> bool) \<Rightarrow> 'a list \<Rightarrow> 'a list" where
  "deleteBy matches rows = filter (\<lambda>r. \<not> matches r) rows"

definition nextId :: "nat list \<Rightarrow> nat" where
  "nextId ids = Suc (fold max ids 0)"

section \<open>Subscription inference\<close>

text \<open>
  The query of lines 78 to 87: the distinct pairs of id and frequency of the active items
  of active categories for which the patient has an entry with \<^verbatim>\<open>selected = 1\<close>.
\<close>

definition subscribedItems :: "db \<Rightarrow> nat \<Rightarrow> (nat \<times> TrackingFrequency) list" where
  "subscribedItems s patientId =
     remdups
       [(i_id ti, i_frequency ti).
          ti \<leftarrow> TRACK_ITEM s,
          tc \<leftarrow> TRACK_CATEGORY s,
          tie \<leftarrow> TRACK_ITEM_ENTRY s,
          c_id tc = i_category_id ti \<and> e_track_item_id tie = i_id ti
            \<and> c_status tc = ''active'' \<and> i_status ti = ''active''
            \<and> e_patient_id tie = patientId \<and> e_selected tie = 1]"

text \<open>The body of the loop of lines 97 to 127, for one subscribed item.\<close>

definition ensureEntry ::
  "runtime \<Rightarrow> nat \<Rightarrow> string \<Rightarrow> Patient \<Rightarrow> nat \<times> TrackingFrequency \<Rightarrow> db \<Rightarrow> db" where
  "ensureEntry rt patientId date patient item s =
     (if \<not> shouldCreateEntryForDate rt date (snd item) then s
      else
        (let normalizedDate = normalizeDateByFrequency rt date (snd item)
         in case getFirstBy (\<lambda>e. e_track_item_id e = fst item \<and> e_patient_id e = patientId
                                  \<and> e_date e = normalizedDate) (TRACK_ITEM_ENTRY s) of
              None \<Rightarrow>
                s\<lparr>TRACK_ITEM_ENTRY := TRACK_ITEM_ENTRY s @
                    [\<lparr>e_id = nextId (map e_id (TRACK_ITEM_ENTRY s)),
                      e_user_id = p_user_id patient,
                      e_patient_id = patientId,
                      e_track_item_id = fst item,
                      e_date = normalizedDate,
                      e_selected = 1,
                      e_created_date = now rt,
                      e_updated_date = now rt\<rparr>]\<rparr>
            | Some existing \<Rightarrow>
                if e_selected existing \<noteq> 1 then
                  s\<lparr>TRACK_ITEM_ENTRY :=
                      updateBy (\<lambda>e. e_id e = e_id existing)
                        (\<lambda>e. e\<lparr>e_selected := 1, e_updated_date := now rt\<rparr>)
                        (TRACK_ITEM_ENTRY s)\<rparr>
                else s))"

text \<open>\<^verbatim>\<open>ensureSubscribedEntries\<close> (lines 75 to 128).\<close>

definition ensureSubscribedEntries :: "runtime \<Rightarrow> nat \<Rightarrow> string \<Rightarrow> db \<Rightarrow> db" where
  "ensureSubscribedEntries rt patientId date s =
     (let subscribed = subscribedItems s patientId
      in if subscribed = [] then s
         else (case getFirstBy (\<lambda>p. p_id p = patientId) (PATIENT s) of
                 None \<Rightarrow> s
               | Some patient \<Rightarrow> fold (ensureEntry rt patientId date patient) subscribed s))"

text \<open>
  A subscribed item is settled in a store when the loop body has nothing to do for it:
  the date is no bucket boundary for its frequency, or the first entry of the item, the
  patient and the bucket date is there and selected.
\<close>

definition settled :: "runtime \<Rightarrow> nat \<Rightarrow> string \<Rightarrow> db \<Rightarrow> nat \<times> TrackingFrequency \<Rightarrow> bool" where
  "settled rt patientId date s item =
     (shouldCreateEntryForDate rt date (snd item) \<longrightarrow>
        (case getFirstBy (\<lambda>e. e_track_item_id e = fst item \<and> e_patient_id e = patientId
                                \<and> e_date e = normalizeDateByFrequency rt date (snd item))
                (TRACK_ITEM_ENTRY s) of
           None \<Rightarrow> False
         | Some e \<Rightarrow> e_selected e = 1))"

text \<open>
  Every selected entry of the patient after the loop is of an item that had a selected
  entry of the patient before it: the loop inserts and reactivates entries of subscribed
  items only. The ids of the entries stay distinct.
\<close>

definition selectedFrom :: "nat \<Rightarrow> TrackItemEntry list \<Rightarrow> TrackItemEntry list \<Rightarrow> bool" where
  "selectedFrom pid before after =
     (\<forall>e \<in> set after. e_patient_id e = pid \<and> e_selected e = 1 \<longrightarrow>
        (\<exists>e0 \<in> set before. e_track_item_id e0 = e_track_item_id e
                             \<and> e_patient_id e0 = pid \<and> e_selected e0 = 1))"

section \<open>Responses and options\<close>

text \<open>
  \<^verbatim>\<open>JSON.stringify\<close> of a string: the text in double quotes, with the quote, the
  backslash and the control characters escaped.
\<close>

definition hexDigit :: "nat \<Rightarrow> char" where
  "hexDigit n = (if n < 16 then ''0123456789abcdef'' ! n else CHR ''0'')"

definition escapeChar :: "char \<Rightarrow> string" where
  "escapeChar c =
     (if c = DQ then [BSL, DQ]
      else if c = BSL then [BSL, BSL]
      else if c = CHR 0x08 then [BSL, CHR ''b'']
      else if c = CHR 0x0C then [BSL, CHR ''f'']
      else if c = CHR 0x0A then [BSL, CHR ''n'']
      else if c = CHR 0x0D then [BSL, CHR ''r'']
      else if c = CHR 0x09 then [BSL, CHR ''t'']
      else if (of_char c :: nat) < 0x20
        then [BSL, CHR ''u'', CHR ''0'', CHR ''0'',
              hexDigit ((of_char c :: nat) div 16), hexDigit ((of_char c :: nat) mod 16)]
      else [c])"

definition JSON_stringify :: "string \<Rightarrow> string" where
  "JSON_stringify s = [DQ] @ concat (map escapeChar s) @ [DQ]"

text \<open>
  \<^verbatim>\<open>saveResponse\<close> (lines 333 to 378). The update calls the clock once; the insert calls it
  twice, for \<^verbatim>\<open>created_date\<close> and then for \<^verbatim>\<open>updated_date\<close>.
\<close>

definition saveResponse :: "runtime \<Rightarrow> nat \<Rightarrow> nat \<Rightarrow> string \<Rightarrow> string \<Rightarrow> nat \<Rightarrow> db \<Rightarrow> db" where
  "saveResponse rt entryId questionId answer userId patientId s =
     (let matches = (\<lambda>r. r_track_item_entry_id r = entryId \<and> r_question_id r = questionId
                          \<and> r_user_id r = userId \<and> r_patient_id r = patientId)
      in case getFirstBy matches (TRACK_RESPONSE s) of
           Some existing \<Rightarrow>
             s\<lparr>TRACK_RESPONSE :=
                 updateBy matches
                   (\<lambda>r. r\<lparr>r_answer := JSON_stringify answer,
                           r_updated_date := clock rt (clockCalls s)\<rparr>)
                   (TRACK_RESPONSE s),
               clockCalls := clockCalls s + 1\<rparr>
         | None \<Rightarrow>
             s\<lparr>TRACK_RESPONSE := TRACK_RESPONSE s @
                 [\<lparr>r_id = nextId (map r_id (TRACK_RESPONSE s)),
                   r_user_id = userId,
                   r_patient_id = patientId,
                   r_question_id = questionId,
                   r_track_item_entry_id = entryId,
                   r_answer = JSON_stringify answer,
                   r_created_date = clock rt (clockCalls s),
                   r_updated_date = clock rt (clockCalls s + 1)\<rparr>],
               clockCalls := clockCalls s + 2\<rparr>)"

text \<open>
  \<^verbatim>\<open>addOptionToQuestion\<close> (lines 380 to 398): the new store and the id of the new row. The
  insert names neither code nor status; they are null here.
\<close>

definition addOptionToQuestion :: "runtime \<Rightarrow> nat \<Rightarrow> string \<Rightarrow> db \<Rightarrow> db \<times> nat" where
  "addOptionToQuestion rt questionId label s =
     (let newId = nextId (map o_id (RESPONSE_OPTION s))
      in (s\<lparr>RESPONSE_OPTION := RESPONSE_OPTION s @
              [\<lparr>o_id = newId,
                o_question_id = questionId,
                o_code = None,
                o_text = label,
                o_status = None,
                o_created_date = clock rt (clockCalls s),
                o_updated_date = clock rt (clockCalls s + 1)\<rparr>],
            clockCalls := clockCalls s + 2\<rparr>,
          newId))"

section \<open>Linking and unlinking an item\<close>

text \<open>\<^verbatim>\<open>addTrackItemOnDate\<close> (lines 401 to 446).\<close>

definition addTrackItemOnDate :: "runtime \<Rightarrow> nat \<Rightarrow> string \<Rightarrow> nat \<Rightarrow> string \<Rightarrow> db \<Rightarrow> db" where
  "addTrackItemOnDate rt itemId userId patientId date s =
     (let item = getFirstBy (\<lambda>i. i_id i = itemId) (TRACK_ITEM s);
          frequency = (case item of None \<Rightarrow> DAILY | Some i \<Rightarrow> i_frequency i);
          normalizedDate = normalizeDateByFrequency rt date frequency
      in case getFirstBy (\<lambda>e. e_track_item_id e = itemId \<and> e_patient_id e = patientId
                               \<and> e_date e = normalizedDate) (TRACK_ITEM_ENTRY s) of
           Some existing \<Rightarrow>
             s\<lparr>TRACK_ITEM_ENTRY :=
                 updateBy (\<lambda>e. e_id e = e_id existing)
                   (\<lambda>e. e\<lparr>e_selected := 1, e_updated_date := now rt\<rparr>)
                   (TRACK_ITEM_ENTRY s)\<rparr>
         | None \<Rightarrow>
             s\<lparr>TRACK_ITEM_ENTRY := TRACK_ITEM_ENTRY s @
                 [\<lparr>e_id = nextId (map e_id (TRACK_ITEM_ENTRY s)),
                   e_user_id = userId,
                   e_patient_id = patientId,
                   e_track_item_id = itemId,
                   e_date = normalizedDate,
                   e_selected = 1,
                   e_created_date = now rt,
                   e_updated_date = now rt\<rparr>]\<rparr>)"

text \<open>\<^verbatim>\<open>removeTrackItemFromDate\<close> (lines 449 to 463).\<close>

definition removeTrackItemFromDate :: "runtime \<Rightarrow> nat \<Rightarrow> string \<Rightarrow> nat \<Rightarrow> string \<Rightarrow> db \<Rightarrow> db" where
  "removeTrackItemFromDate rt itemId userId patientId date s =
     s\<lparr>TRACK_ITEM_ENTRY :=
         updateBy (\<lambda>e. e_patient_id e = patientId \<and> e_track_item_id e = itemId)
           (\<lambda>e. e\<lparr>e_selected := 0, e_updated_date := now rt\<rparr>)
           (TRACK_ITEM_ENTRY s)\<rparr>"

section \<open>Custom goals\<close>

record CustomGoalQuestion =
  cq_text :: string
  cq_type :: string
  cq_required :: bool
  cq_options :: "string list option"

record CustomGoalParams =
  cg_name :: string
  cg_userId :: string
  cg_patientId :: nat
  cg_date :: string
  cg_frequency :: TrackingFrequency
  cg_code :: string
  cg_questions :: "CustomGoalQuestion list"

datatype error = CustomCategoryNotFound

text \<open>One insert into the option table, with a code from \<^verbatim>\<open>uuidv4\<close> (lines 789 to 822).\<close>

definition insertOption :: "runtime \<Rightarrow> nat \<Rightarrow> string \<Rightarrow> string \<Rightarrow> db \<Rightarrow> db" where
  "insertOption rt questionId code text s =
     s\<lparr>RESPONSE_OPTION := RESPONSE_OPTION s @
         [\<lparr>o_id = nextId (map o_id (RESPONSE_OPTION s)),
           o_question_id = questionId,
           o_code = Some code,
           o_text = text,
           o_status = Some ''active'',
           o_created_date = now rt,
           o_updated_date = now rt\<rparr>]\<rparr>"

definition insertUuidOption :: "runtime \<Rightarrow> nat \<Rightarrow> string \<Rightarrow> db \<Rightarrow> db" where
  "insertUuidOption rt questionId text s =
     insertOption rt questionId (uuidv4 rt (codesDrawn s)) text (s\<lparr>codesDrawn := codesDrawn s + 1\<rparr>)"

definition insertStampOption :: "runtime \<Rightarrow> nat \<Rightarrow> string \<Rightarrow> db \<Rightarrow> db" where
  "insertStampOption rt questionId text s =
     insertOption rt questionId (''RESP_'' @ stampCode rt (codesDrawn s)) text
       (s\<lparr>codesDrawn := codesDrawn s + 1\<rparr>)"

text \<open>One insert into the question table (lines 772 to 784 and 893 to 905).\<close>

definition insertQuestion :: "runtime \<Rightarrow> nat \<Rightarrow> string \<Rightarrow> string \<Rightarrow> string \<Rightarrow> bool \<Rightarrow> db \<Rightarrow> db \<times> nat" where
  "insertQuestion rt itemId code text type required s =
     (let newId = nextId (map q_id (QUESTION s))
      in (s\<lparr>QUESTION := QUESTION s @
              [\<lparr>q_id = newId,
                q_item_id = itemId,
                q_code = code,
                q_text = text,
                q_type = type,
                q_required = (if required then 1 else 0),
                q_summary_template = None,
                q_status = ''active'',
                q_created_date = now rt,
                q_updated_date = now rt,
                q_parent_question_id = None,
                q_display_condition = None\<rparr>]\<rparr>,
          newId))"

text \<open>The body of the loop of lines 766 to 827, for one question of the new goal.\<close>

definition addGoalQuestion :: "runtime \<Rightarrow> nat \<Rightarrow> CustomGoalQuestion \<Rightarrow> db \<Rightarrow> db" where
  "addGoalQuestion rt trackItemId question s =
     (let questionCode = uuidv4 rt (codesDrawn s);
          inserted = insertQuestion rt trackItemId questionCode (cq_text question) (cq_type question)
                       (cq_required question) (s\<lparr>codesDrawn := codesDrawn s + 1\<rparr>);
          s1 = fst inserted;
          questionId = snd inserted
      in if cq_type question = type_BOOLEAN \<or> cq_type question = ''boolean'' then
           insertUuidOption rt questionId ''No'' (insertUuidOption rt questionId ''Yes'' s1)
         else if cq_type question = type_MCQ \<or> cq_type question = type_MSQ
                 \<or> cq_type question = ''mcq'' \<or> cq_type question = ''msq'' then
           (case cq_options question of
              None \<Rightarrow> s1
            | Some opts \<Rightarrow>
                (let cleanOptions = filter (\<lambda>x. x \<noteq> [] \<and> 0 < length (trim x)) opts
                 in fold (\<lambda>opt. insertUuidOption rt questionId (trim opt)) cleanOptions s1))
         else s1)"

text \<open>
  \<^verbatim>\<open>addCustomGoal\<close> (lines 735 to 830): the error thrown when there is no category named
  Custom, or the new store and the id of the new item.
\<close>

definition addCustomGoal :: "runtime \<Rightarrow> CustomGoalParams \<Rightarrow> db \<Rightarrow> error + (db \<times> nat)" where
  "addCustomGoal rt params s =
     (case getFirstBy (\<lambda>c. c_name c = ''Custom'') (TRACK_CATEGORY s) of
        None \<Rightarrow> Inl CustomCategoryNotFound
      | Some category \<Rightarrow>
          (let customCategoryId = c_id category;
               trackItemCode = uuidv4 rt (codesDrawn s);
               trackItemId = nextId (map i_id (TRACK_ITEM s));
               s1 = s\<lparr>TRACK_ITEM := TRACK_ITEM s @
                       [\<lparr>i_id = trackItemId,
                         i_category_id = customCategoryId,
                         i_code = trackItemCode,
                         i_name = cg_name params,
                         i_frequency = cg_frequency params,
                         i_status = ''active'',
                         i_created_date = now rt,
                         i_updated_date = now rt\<rparr>],
                     codesDrawn := codesDrawn s + 1\<rparr>
           in Inr (fold (addGoalQuestion rt trackItemId) (cg_questions params) s1, trackItemId)))"

record QuestionUpdate =
  qu_id :: "nat option"
  qu_text :: string
  qu_type :: string
  qu_required :: "bool option"
  qu_options :: "string list option"

record GoalUpdates =
  gu_name :: "string option"
  gu_questions :: "QuestionUpdate list option"

text \<open>
  The body of the loop of lines 859 to 923, for one question of the update. An id that is
  absent or 0 means a new question. Options that are supplied, be it an empty list,
  replace the options of an existing question: line 877 deletes the rows of the question
  from the option table before the new ones are inserted.
\<close>

definition editGoalQuestion :: "runtime \<Rightarrow> nat \<Rightarrow> QuestionUpdate \<Rightarrow> db \<Rightarrow> db" where
  "editGoalQuestion rt trackItemId q s =
     (let required = (case qu_required q of None \<Rightarrow> False | Some b \<Rightarrow> b)
      in case (case qu_id q of None \<Rightarrow> None | Some n \<Rightarrow> if n = 0 then None else Some n) of
           Some qid \<Rightarrow>
             (let s1 = s\<lparr>QUESTION :=
                          updateBy (\<lambda>x. q_id x = qid)
                            (\<lambda>x. x\<lparr>q_text := qu_text q, q_type := qu_type q,
                                    q_required := (if required then 1 else 0),
                                    q_updated_date := now rt\<rparr>)
                            (QUESTION s)\<rparr>
              in case qu_options q of
                   None \<Rightarrow> s1
                 | Some opts \<Rightarrow>
                     fold (\<lambda>opt. insertUuidOption rt qid (trim opt)) opts
                       (s1\<lparr>RESPONSE_OPTION :=
                             deleteBy (\<lambda>opt. o_question_id opt = qid) (RESPONSE_OPTION s1)\<rparr>))
         | None \<Rightarrow>
             (let inserted = insertQuestion rt trackItemId (''Q_'' @ stampCode rt (codesDrawn s))
                               (qu_text q) (qu_type q) required (s\<lparr>codesDrawn := codesDrawn s + 1\<rparr>);
                  s1 = fst inserted;
                  questionId = snd inserted
              in case qu_options q of
                   None \<Rightarrow> s1
                 | Some opts \<Rightarrow> fold (\<lambda>opt. insertStampOption rt questionId (trim opt)) opts s1))"

text \<open>\<^verbatim>\<open>editCustomGoal\<close> (lines 832 to 927).\<close>

definition editCustomGoal :: "runtime \<Rightarrow> nat \<Rightarrow> GoalUpdates \<Rightarrow> db \<Rightarrow> db" where
  "editCustomGoal rt trackItemId updates s =
     (let s1 = (case gu_name updates of
                  None \<Rightarrow> s
                | Some name \<Rightarrow>
                    if name = [] then s
                    else s\<lparr>TRACK_ITEM :=
                            updateBy (\<lambda>i. i_id i = trackItemId)
                              (\<lambda>i. i\<lparr>i_name := name, i_updated_date := now rt\<rparr>)
                              (TRACK_ITEM s)\<rparr>)
      in case gu_questions updates of
           None \<Rightarrow> s1
         | Some qs \<Rightarrow> fold (editGoalQuestion rt trackItemId) qs s1)"

text \<open>\<^verbatim>\<open>removeCustomGoal\<close> (lines 929 to 952).\<close>

definition removeCustomGoal :: "runtime \<Rightarrow> nat \<Rightarrow> nat \<Rightarrow> db \<Rightarrow> db" where
  "removeCustomGoal rt trackItemId patientId s =
     (let s1 = s\<lparr>TRACK_ITEM :=
                  updateBy (\<lambda>i. i_id i = trackItemId)
                    (\<lambda>i. i\<lparr>i_status := ''inactive'', i_updated_date := now rt\<rparr>)
                    (TRACK_ITEM s)\<rparr>
      in s1\<lparr>TRACK_ITEM_ENTRY :=
              updateBy (\<lambda>e. e_track_item_id e = trackItemId \<and> e_patient_id e = patientId)
                (\<lambda>e. e\<lparr>e_selected := 0, e_updated_date := now rt\<rparr>)
                (TRACK_ITEM_ENTRY s1)\<rparr>)"

section \<open>Relations between the store before and after a call\<close>





text \<open>
  Every row of a table after a call is a row of the table before it, or it carries the
  timestamp \<open>t\<close> as its \<^verbatim>\<open>updated_date\<close> and, as its \<^verbatim>\<open>created_date\<close>, either \<open>t\<close> too (a
  row the call inserted) or the \<^verbatim>\<open>created_date\<close> of the row with its id before the call
  (a row the call updated).
\<close>

definition stamped ::
  "string \<Rightarrow> ('a \<Rightarrow> nat) \<Rightarrow> ('a \<Rightarrow> string) \<Rightarrow> ('a \<Rightarrow> string) \<Rightarrow> 'a list \<Rightarrow> 'a list \<Rightarrow> bool" where
  "stamped t ident created updated before after =
     (\<forall>r \<in> set after.
        r \<in> set before
        \<or> (updated r = t
            \<and> (created r = t \<or> (\<exists>r0 \<in> set before. ident r0 = ident r \<and> created r0 = created r))))"

text \<open>
  All rows a call writes carry the constant \<^verbatim>\<open>now\<close>; the call does not read the clock and
  leaves the response table alone.
\<close>

definition stampedWithNow :: "runtime \<Rightarrow> db \<Rightarrow> db \<Rightarrow> bool" where
  "stampedWithNow rt s s' =
     (stamped (now rt) i_id i_created_date i_updated_date (TRACK_ITEM s) (TRACK_ITEM s')
      \<and> stamped (now rt) q_id q_created_date q_updated_date (QUESTION s) (QUESTION s')
      \<and> stamped (now rt) o_id o_created_date o_updated_date (RESPONSE_OPTION s) (RESPONSE_OPTION s')
      \<and> stamped (now rt) e_id e_created_date e_updated_date (TRACK_ITEM_ENTRY s) (TRACK_ITEM_ENTRY s')
      \<and> TRACK_RESPONSE s' = TRACK_RESPONSE s
      \<and> clockCalls s' = clockCalls s)"

text \<open>
  A call reads the clock, and every row of a table after the call is a row of the table
  before it, or carries as its \<^verbatim>\<open>updated_date\<close> what the clock returned at one of the
  readings of this call and as its \<^verbatim>\<open>created_date\<close> either such a reading too (a row
  the call inserted) or the \<^verbatim>\<open>created_date\<close> of a row before the call (a row the call
  updated).
\<close>

definition stampedByClock ::
  "runtime \<Rightarrow> db \<Rightarrow> db \<Rightarrow> ('a \<Rightarrow> string) \<Rightarrow> ('a \<Rightarrow> string) \<Rightarrow> 'a list \<Rightarrow> 'a list \<Rightarrow> bool" where
  "stampedByClock rt s s' created updated before after =
     (clockCalls s < clockCalls s'
      \<and> (\<forall>r \<in> set after.
            r \<in> set before
            \<or> ((\<exists>n \<in> set [clockCalls s ..< clockCalls s']. updated r = clock rt n)
                \<and> ((\<exists>n \<in> set [clockCalls s ..< clockCalls s']. created r = clock rt n)
                     \<or> (\<exists>r0 \<in> set before. created r0 = created r)))))"

section \<open>Example inputs\<close>

text \<open>
  Two runtimes: one whose local time is UTC, and one five hours behind UTC (the offset of
  the eastern United States in winter). Neither parses date formats outside ISO; the
  clock returns the ISO text of consecutive seconds, and the unique codes are numbered.
\<close>

definition utcRuntime :: runtime where
  "utcRuntime =
     \<lparr> tzOffsetMinutes = 0,
       dateParseOther = (\<lambda>s. None),
       fractionToString = (\<lambda>r. ''NaN''),
       stringToNumber = (\<lambda>s. None),
       now = ''2024-03-01T08:00:00.000Z'',
       clock = (\<lambda>n. ''2024-03-05T10:00:'' @ (if n < 10 then ''0'' else []) @ showNat n @ ''.000Z''),
       uuidv4 = (\<lambda>n. ''uuid-'' @ showNat n),
       stampCode = (\<lambda>n. ''1709632800000_'' @ showNat n) \<rparr>"

definition easternRuntime :: runtime where
  "easternRuntime = utcRuntime \<lparr> tzOffsetMinutes := - 300 \<rparr>"

text \<open>A question of item 1 with the given id, parent and display condition.\<close>

definition exampleQuestion :: "nat \<Rightarrow> nat option \<Rightarrow> string option \<Rightarrow> Question" where
  "exampleQuestion n parent condition =
     \<lparr> q_id = n, q_item_id = 1, q_code = ''q'' @ showNat n, q_text = ''Question'',
       q_type = ''text'', q_required = 0,
       q_summary_template = Some ''You answered: {{answer}}'',
       q_status = ''active'',
       q_created_date = ''2024-03-01T08:00:00.000Z'',
       q_updated_date = ''2024-03-01T08:00:00.000Z'',
       q_parent_question_id = parent, q_display_condition = condition \<rparr>"

text \<open>The condition texts \<^verbatim>\<open>{"eq": "x"}\<close> and \<^verbatim>\<open>{"parent_response_exists": true}\<close>.\<close>

definition condEqX :: string where
  "condEqX = ''{'' @ [DQ] @ ''eq'' @ [DQ] @ '': '' @ [DQ] @ ''x'' @ [DQ] @ ''}''"

definition condParentResponseExists :: string where
  "condParentResponseExists = ''{'' @ [DQ] @ ''parent_response_exists'' @ [DQ] @ '': true}''"

text \<open>
  A root question 1, its child 2 shown when the answer to 1 is \<^verbatim>\<open>x\<close>, two children
  of 2 (question 3 without a display condition, question 4 shown when 2 has a response),
  and a child 5 of question 4.
\<close>

definition exampleQuestions :: "Question list" where
  "exampleQuestions =
     [exampleQuestion 1 None None,
      exampleQuestion 2 (Some 1) (Some condEqX),
      exampleQuestion 3 (Some 2) None,
      exampleQuestion 4 (Some 2) (Some condParentResponseExists),
      exampleQuestion 5 (Some 4) (Some condEqX)]"


text \<open>
  A store: the categories Wellness and Custom; a daily, a weekly and a monthly item of
  Wellness and the custom goal 4; the example questions of item 1 and question 7 of the
  custom goal; two options; patient 1, who tracks the four items.
\<close>

definition exampleItem :: "nat \<Rightarrow> nat \<Rightarrow> TrackingFrequency \<Rightarrow> TrackItem" where
  "exampleItem n category frequency =
     \<lparr> i_id = n, i_category_id = category, i_code = ''item'' @ showNat n, i_name = ''Item'',
       i_frequency = frequency, i_status = ''active'',
       i_created_date = ''2024-01-01T08:00:00.000Z'',
       i_updated_date = ''2024-01-01T08:00:00.000Z'' \<rparr>"

definition exampleEntry :: "nat \<Rightarrow> nat \<Rightarrow> string \<Rightarrow> nat \<Rightarrow> TrackItemEntry" where
  "exampleEntry n item date selected =
     \<lparr> e_id = n, e_user_id = ''u1'', e_patient_id = 1, e_track_item_id = item, e_date = date,
       e_selected = selected,
       e_created_date = ''2024-01-01T08:00:00.000Z'',
       e_updated_date = ''2024-01-01T08:00:00.000Z'' \<rparr>"

definition exampleOption :: "nat \<Rightarrow> nat \<Rightarrow> string \<Rightarrow> string \<Rightarrow> ResponseOption" where
  "exampleOption n question code text =
     \<lparr> o_id = n, o_question_id = question, o_code = Some code, o_text = text,
       o_status = Some ''active'',
       o_created_date = ''2024-01-01T08:00:00.000Z'',
       o_updated_date = ''2024-01-01T08:00:00.000Z'' \<rparr>"

definition exampleDb :: db where
  "exampleDb =
     \<lparr> TRACK_CATEGORY =
         [\<lparr>c_id = 1, c_name = ''Wellness'', c_status = ''active''\<rparr>,
          \<lparr>c_id = 2, c_name = ''Custom'', c_status = ''active''\<rparr>],
       TRACK_ITEM =
         [exampleItem 1 1 DAILY, exampleItem 2 1 WEEKLY, exampleItem 3 1 MONTHLY,
          exampleItem 4 2 DAILY],
       QUESTION = exampleQuestions @ [(exampleQuestion 7 None None)\<lparr>q_item_id := 4\<rparr>],
       RESPONSE_OPTION = [exampleOption 1 7 ''o_walk'' ''Walk'', exampleOption 2 2 ''o_yes'' ''yes''],
       TRACK_ITEM_ENTRY =
         [exampleEntry 1 1 ''01-10-2024'' 1, exampleEntry 2 2 ''01-08-2024'' 1,
          exampleEntry 3 3 ''01-01-2024'' 1, exampleEntry 4 4 ''01-10-2024'' 1,
          exampleEntry 5 1 ''01-15-2024'' 0],
       TRACK_RESPONSE = [],
       PATIENT = [\<lparr>p_id = 1, p_user_id = ''u1''\<rparr>],
       clockCalls = 0,
       codesDrawn = 0 \<rparr>"


definition exampleGoal :: CustomGoalParams where
  "exampleGoal =
     \<lparr> cg_name = ''Sleep'', cg_userId = ''u1'', cg_patientId = 1, cg_date = ''01-15-2024'',
       cg_frequency = DAILY, cg_code = ''sleep'',
       cg_questions =
         [\<lparr>cq_text = ''Slept well'', cq_type = ''boolean'', cq_required = True, cq_options = None\<rparr>,
          \<lparr>cq_text = ''Aids'', cq_type = ''msq'', cq_required = False,
            cq_options = Some ['' Mask '', '' '', ''Tea'']\<rparr>] \<rparr>"

section \<open>Properties of the summary generator\<close>

lemma startsWith_append: "startsWith (p @ r) p"
  by (induction p) auto

lemma startsWith_iff: "startsWith s p \<longleftrightarrow> (\<exists>r. s = p @ r)"
proof (induction s p rule: startsWith.induct)
  case (1 s) show ?case by simp
next
  case (2 p ps) show ?case by simp
next
  case (3 c cs p ps) then show ?case by auto
qed

text \<open>\<open>splitAtFirst\<close> finds an occurrence of the pattern, and the first one.\<close>

lemma splitAtFirst_sound:
  "splitAtFirst pat s = Some (b, a) \<Longrightarrow> s = b @ pat @ a"
proof (induction s arbitrary: b)
  case Nil
  then show ?case by (simp split: if_splits)
next
  case (Cons c cs)
  show ?case
  proof (cases "startsWith (c # cs) pat")
    case True
    then obtain r where r: "c # cs = pat @ r" using startsWith_iff by blast
    from True Cons.prems have "b = []" "a = drop (length pat) (c # cs)" by simp_all
    with r show ?thesis by simp
  next
    case False
    with Cons.prems obtain b' where s: "splitAtFirst pat cs = Some (b', a)" and b: "b = c # b'"
      by (auto split: option.splits simp: prod_eq_iff)
    from Cons.IH[OF s] b show ?thesis by simp
  qed
qed

lemma splitAtFirst_first:
  "s = b @ pat @ a \<Longrightarrow> (\<And>b' a'. s = b' @ pat @ a' \<Longrightarrow> length b \<le> length b') \<Longrightarrow>
   splitAtFirst pat s = Some (b, a)"
proof (induction b arbitrary: s)
  case Nil
  then have s: "s = pat @ a" by simp
  show ?case
  proof (cases s)
    case Nil
    with s show ?thesis by simp
  next
    case (Cons c cs)
    have "startsWith (c # cs) pat" using s Cons startsWith_append by metis
    moreover have "drop (length pat) (c # cs) = a" using s Cons by (metis append_eq_conv_conj)
    ultimately show ?thesis using Cons by simp
  qed
next
  case (Cons c b)
  then have s: "s = c # (b @ pat @ a)" by simp
  have ns: "\<not> startsWith s pat"
  proof
    assume "startsWith s pat"
    then obtain r where "s = [] @ pat @ r" using startsWith_iff by auto
    from Cons.prems(2)[OF this] show False by simp
  qed
  have "splitAtFirst pat (b @ pat @ a) = Some (b, a)"
  proof (rule Cons.IH[OF refl])
    fix b' a' assume "b @ pat @ a = b' @ pat @ a'"
    then have "s = (c # b') @ pat @ a'" using s by simp
    from Cons.prems(2)[OF this] show "length b \<le> length b'" by simp
  qed
  then show ?case using ns s by simp
qed











section \<open>Properties of the visibility evaluator\<close>

text \<open>One step of \<open>isQuestionVisible\<close>, for each way through its body.\<close>

lemma isQuestionVisible_cached:
  "cacheGet cache (q_id q) = Some b \<Longrightarrow>
   isQuestionVisible rt q answers allQ allO cache = Some (b, cache)"
  by (subst isQuestionVisible.simps) simp

lemma isQuestionVisible_unconditional:
  "cacheGet cache (q_id q) = None \<Longrightarrow> conditionOf q = None \<Longrightarrow>
   isQuestionVisible rt q answers allQ allO cache = Some (True, cacheSet cache (q_id q) True)"
  by (subst isQuestionVisible.simps) simp

lemma isQuestionVisible_no_parent_found:
  "cacheGet cache (q_id q) = None \<Longrightarrow> conditionOf q = Some (pid, c) \<Longrightarrow>
   findParent allQ pid = None \<Longrightarrow>
   isQuestionVisible rt q answers allQ allO cache =
     Some (evalCondition rt pid c None answers allO,
           cacheSet cache (q_id q) (evalCondition rt pid c None answers allO))"
  by (subst isQuestionVisible.simps) (simp add: Let_def)

lemma isQuestionVisible_parent_hidden:
  "cacheGet cache (q_id q) = None \<Longrightarrow> conditionOf q = Some (pid, c) \<Longrightarrow>
   findParent allQ pid = Some p \<Longrightarrow>
   isQuestionVisible rt p answers allQ allO cache = Some (False, c') \<Longrightarrow>
   isQuestionVisible rt q answers allQ allO cache = Some (False, cacheSet c' (q_id q) False)"
  by (subst isQuestionVisible.simps) simp

lemma isQuestionVisible_parent_visible:
  "cacheGet cache (q_id q) = None \<Longrightarrow> conditionOf q = Some (pid, c) \<Longrightarrow>
   findParent allQ pid = Some p \<Longrightarrow>
   isQuestionVisible rt p answers allQ allO cache = Some (True, c') \<Longrightarrow>
   isQuestionVisible rt q answers allQ allO cache =
     Some (evalCondition rt pid c (Some p) answers allO,
           cacheSet c' (q_id q) (evalCondition rt pid c (Some p) answers allO))"
  by (subst isQuestionVisible.simps) (simp add: Let_def)

text \<open>
  Below a hidden question, every question of a chain of conditional questions is hidden,
  as long as the memo table holds no entry for it.
\<close>

lemma hidden_chain:
  "isQuestionVisible rt p answers allQ allO cache = Some (False, c0) \<Longrightarrow>
   descendsFrom allQ p qs \<Longrightarrow>
   (\<forall>q \<in> set qs. cacheGet cache (q_id q) = None) \<Longrightarrow>
   (\<forall>q \<in> set qs. \<exists>c'. isQuestionVisible rt q answers allQ allO cache = Some (False, c'))"
proof (induction qs arbitrary: p c0)
  case Nil
  then show ?case by simp
next
  case (Cons q qs)
  from Cons.prems(2) obtain pid c where pc: "conditionOf q = Some (pid, c)"
    and fp: "findParent allQ pid = Some p" and rest: "descendsFrom allQ q qs"
    by (auto split: option.splits)
  from Cons.prems(3) have miss: "cacheGet cache (q_id q) = None" by simp
  have hq: "isQuestionVisible rt q answers allQ allO cache = Some (False, cacheSet c0 (q_id q) False)"
    by (rule isQuestionVisible_parent_hidden[OF miss pc fp Cons.prems(1)])
  from Cons.prems(3) have "\<forall>q \<in> set qs. cacheGet cache (q_id q) = None" by simp
  from Cons.IH[OF hq rest this] hq show ?case by simp
qed

text \<open>
  Claim C2, as the code has it. When the call for a question \<open>p\<close> returns false, the
  call returns false for every question of a chain of conditional questions below
  \<open>p\<close> (each with a parent id that is not 0 and a display condition that is not empty,
  each the child of the one before), provided the memo table holds no entry for them. A
  question without a display condition (or without a parent id) is visible whatever its
  parent is: the guard of line 617 returns before the parent is looked at.
\<close>

theorem visibility_cascades:
  "(isQuestionVisible rt p answers allQ allO cache = Some (False, c0)
      \<and> descendsFrom allQ p qs
      \<and> (\<forall>q \<in> set qs. cacheGet cache (q_id q) = None)
    \<longrightarrow> (\<forall>q \<in> set qs. \<exists>c'. isQuestionVisible rt q answers allQ allO cache = Some (False, c')))
   \<and> (conditionOf u = None \<and> cacheGet cache (q_id u) = None
    \<longrightarrow> isQuestionVisible rt u answers allQ allO cache = Some (True, cacheSet cache (q_id u) True))"
proof (intro conjI impI)
  assume "isQuestionVisible rt p answers allQ allO cache = Some (False, c0)
      \<and> descendsFrom allQ p qs
      \<and> (\<forall>q \<in> set qs. cacheGet cache (q_id q) = None)"
  then show "\<forall>q \<in> set qs. \<exists>c'. isQuestionVisible rt q answers allQ allO cache = Some (False, c')"
    using hidden_chain[of rt p answers allQ allO cache c0 qs] by blast
next
  assume "conditionOf u = None \<and> cacheGet cache (q_id u) = None"
  then show "isQuestionVisible rt u answers allQ allO cache = Some (True, cacheSet cache (q_id u) True)"
    using isQuestionVisible_unconditional by blast
qed

theorem visibility_cascades_witness:
  "isQuestionVisible utcRuntime (exampleQuestion 2 (Some 1) (Some condEqX)) Map.empty
       (Some exampleQuestions) None None = Some (False, None)
   \<and> descendsFrom (Some exampleQuestions) (exampleQuestion 2 (Some 1) (Some condEqX))
       [exampleQuestion 4 (Some 2) (Some condParentResponseExists),
        exampleQuestion 5 (Some 4) (Some condEqX)]
   \<and> (\<exists>c'. isQuestionVisible utcRuntime (exampleQuestion 5 (Some 4) (Some condEqX)) Map.empty
       (Some exampleQuestions) None None = Some (False, c'))
   \<and> conditionOf (exampleQuestion 3 (Some 2) None) = None
   \<and> isQuestionVisible utcRuntime (exampleQuestion 3 (Some 2) None) Map.empty
       (Some exampleQuestions) None None = Some (True, None)"
proof -
  let ?p = "exampleQuestion 2 (Some 1) (Some condEqX)"
  let ?q4 = "exampleQuestion 4 (Some 2) (Some condParentResponseExists)"
  let ?q5 = "exampleQuestion 5 (Some 4) (Some condEqX)"
  let ?q3 = "exampleQuestion 3 (Some 2) None"
  have h1: "isQuestionVisible utcRuntime ?p Map.empty (Some exampleQuestions) None None = Some (False, None)"
    by code_simp
  have h2: "descendsFrom (Some exampleQuestions) ?p [?q4, ?q5]"
    by code_simp
  have h3: "\<forall>q \<in> set [?q4, ?q5]. cacheGet None (q_id q) = None"
    by (simp add: cacheGet_def)
  have h4: "conditionOf ?q3 = None" by code_simp
  have h5: "cacheGet None (q_id ?q3) = None" by (simp add: cacheGet_def)
  note inst = visibility_cascades[of utcRuntime ?p Map.empty "Some exampleQuestions" None None None "[?q4, ?q5]" ?q3]
  from inst h1 h2 h3 have a: "\<forall>q \<in> set [?q4, ?q5]. \<exists>c'. isQuestionVisible utcRuntime q Map.empty
       (Some exampleQuestions) None None = Some (False, c')"
    by blast
  from inst h4 h5 have b: "isQuestionVisible utcRuntime ?q3 Map.empty (Some exampleQuestions) None None
      = Some (True, cacheSet None (q_id ?q3) True)"
    by blast
  have c: "cacheSet None (q_id ?q3) True = None" by (simp add: cacheSet_def)
  from a have a': "\<exists>c'. isQuestionVisible utcRuntime ?q5 Map.empty
       (Some exampleQuestions) None None = Some (False, c')" by simp
  from h1 h2 a' h4 b c show ?thesis by simp
qed

text \<open>
  The claim as stated fails for a question with a parent and no display condition:
  question 2 is hidden (question 1 has no answer), and its child 3 is visible.
\<close>

theorem visibility_cascades_counterexample:
  "q_parent_question_id (exampleQuestion 3 (Some 2) None) = Some 2
   \<and> findParent (Some exampleQuestions) 2 = Some (exampleQuestion 2 (Some 1) (Some condEqX))
   \<and> isQuestionVisible utcRuntime (exampleQuestion 2 (Some 1) (Some condEqX)) Map.empty
       (Some exampleQuestions) None None = Some (False, None)
   \<and> isQuestionVisible utcRuntime (exampleQuestion 3 (Some 2) None) Map.empty
       (Some exampleQuestions) None None = Some (True, None)"
  by code_simp


lemma evalCondition_parent_response_exists:
  "JSON_parse c = Some cond \<Longrightarrow> getProp cond PARENT_RES_EXISTS = Some (JBool True) \<Longrightarrow>
   evalCondition rt pid c pq answers allO = parentResponseExists (parseParentAnswer (answers pid))"
  by (auto simp: evalCondition_def Let_def getProp_def)

text \<open>
  Claim C8, as the code has it. For a conditional question whose display condition
  parses to an object with the member \<^verbatim>\<open>parent_response_exists\<close> equal to true, and for
  which the memo table holds no entry: when the parent is not among \<^verbatim>\<open>allQuestions\<close>, the
  result is the test of lines 648 to 653 on the parsed answer of the parent (not
  undefined, not null, not the empty string, not an empty array); when the parent is
  found, the result is that test together with the visibility of the parent. The answer
  \<^verbatim>\<open>[]\<close> fails the test and the answer \<^verbatim>\<open>yes\<close> passes it.
\<close>

theorem parent_response_exists_visibility:
  "(conditionOf q = Some (pid, c) \<and> JSON_parse c = Some cond
      \<and> getProp cond PARENT_RES_EXISTS = Some (JBool True)
      \<and> cacheGet cache (q_id q) = None \<and> findParent allQ pid = None
    \<longrightarrow> (\<exists>c'. isQuestionVisible rt q answers allQ allO cache
               = Some (parentResponseExists (parseParentAnswer (answers pid)), c')))
   \<and> (conditionOf q = Some (pid, c) \<and> JSON_parse c = Some cond
      \<and> getProp cond PARENT_RES_EXISTS = Some (JBool True)
      \<and> cacheGet cache (q_id q) = None \<and> findParent allQ pid = Some p
      \<and> isQuestionVisible rt p answers allQ allO cache = Some (pv, c0)
    \<longrightarrow> (\<exists>c'. isQuestionVisible rt q answers allQ allO cache
               = Some (pv \<and> parentResponseExists (parseParentAnswer (answers pid)), c')))
   \<and> (parentResponseExists parsed \<longleftrightarrow>
        parsed \<noteq> None \<and> parsed \<noteq> Some JNull \<and> parsed \<noteq> Some (JStr [])
        \<and> (\<forall>xs. parsed = Some (JArr xs) \<longrightarrow> xs \<noteq> []))
   \<and> \<not> parentResponseExists (parseParentAnswer (Some ''[]''))
   \<and> parentResponseExists (parseParentAnswer (Some ''yes''))"
proof (intro conjI impI)
  assume h: "conditionOf q = Some (pid, c) \<and> JSON_parse c = Some cond
      \<and> getProp cond PARENT_RES_EXISTS = Some (JBool True)
      \<and> cacheGet cache (q_id q) = None \<and> findParent allQ pid = None"
  then have "evalCondition rt pid c None answers allO
      = parentResponseExists (parseParentAnswer (answers pid))"
    using evalCondition_parent_response_exists by blast
  with h show "\<exists>c'. isQuestionVisible rt q answers allQ allO cache
               = Some (parentResponseExists (parseParentAnswer (answers pid)), c')"
    using isQuestionVisible_no_parent_found[of cache q pid c allQ rt answers allO] by simp
next
  assume h: "conditionOf q = Some (pid, c) \<and> JSON_parse c = Some cond
      \<and> getProp cond PARENT_RES_EXISTS = Some (JBool True)
      \<and> cacheGet cache (q_id q) = None \<and> findParent allQ pid = Some p
      \<and> isQuestionVisible rt p answers allQ allO cache = Some (pv, c0)"
  then have e: "evalCondition rt pid c (Some p) answers allO
      = parentResponseExists (parseParentAnswer (answers pid))"
    using evalCondition_parent_response_exists by blast
  show "\<exists>c'. isQuestionVisible rt q answers allQ allO cache
               = Some (pv \<and> parentResponseExists (parseParentAnswer (answers pid)), c')"
  proof (cases pv)
    case True
    with h e show ?thesis
      using isQuestionVisible_parent_visible[of cache q pid c allQ p rt answers allO c0] by simp
  next
    case False
    with h show ?thesis
      using isQuestionVisible_parent_hidden[of cache q pid c allQ p rt answers allO c0] by simp
  qed
next
  show "parentResponseExists parsed \<longleftrightarrow>
        parsed \<noteq> None \<and> parsed \<noteq> Some JNull \<and> parsed \<noteq> Some (JStr [])
        \<and> (\<forall>xs. parsed = Some (JArr xs) \<longrightarrow> xs \<noteq> [])"
    by (auto simp: parentResponseExists_def split: option.splits json.splits)
  show "\<not> parentResponseExists (parseParentAnswer (Some ''[]''))" by code_simp
  show "parentResponseExists (parseParentAnswer (Some ''yes''))" by code_simp
qed

theorem parent_response_exists_visibility_witness:
  "conditionOf (exampleQuestion 4 (Some 2) (Some condParentResponseExists))
     = Some (2, condParentResponseExists)
   \<and> JSON_parse condParentResponseExists = Some (JObj [(PARENT_RES_EXISTS, JBool True)])
   \<and> (\<exists>c'. isQuestionVisible utcRuntime (exampleQuestion 4 (Some 2) (Some condParentResponseExists))
          [1 \<mapsto> ''x'', 2 \<mapsto> ''yes''] (Some exampleQuestions) None None = Some (True, c'))
   \<and> (\<exists>c'. isQuestionVisible utcRuntime (exampleQuestion 4 (Some 2) (Some condParentResponseExists))
          [1 \<mapsto> ''x'', 2 \<mapsto> ''[]''] None None None = Some (False, c'))"
proof -
  let ?q = "exampleQuestion 4 (Some 2) (Some condParentResponseExists)"
  let ?p = "exampleQuestion 2 (Some 1) (Some condEqX)"
  let ?cond = "JObj [(PARENT_RES_EXISTS, JBool True)]"
  have h1: "conditionOf ?q = Some (2, condParentResponseExists)" by code_simp
  have h2: "JSON_parse condParentResponseExists = Some ?cond" by code_simp
  have h3: "getProp ?cond PARENT_RES_EXISTS = Some (JBool True)" by (simp add: getProp_def)
  have h4: "cacheGet None (q_id ?q) = None" by (simp add: cacheGet_def)
  have h5: "findParent (Some exampleQuestions) 2 = Some ?p" by code_simp
  have h6: "isQuestionVisible utcRuntime ?p [1 \<mapsto> ''x'', 2 \<mapsto> ''yes''] (Some exampleQuestions) None None
      = Some (True, None)" by code_simp
  have h7: "findParent None 2 = None" by (simp add: findParent_def)
  have v1: "parentResponseExists (parseParentAnswer ([1 \<mapsto> ''x'', 2 \<mapsto> ''yes''] (2::nat)))" by code_simp
  have v2: "\<not> parentResponseExists (parseParentAnswer ([1 \<mapsto> ''x'', 2 \<mapsto> ''[]''] (2::nat)))" by code_simp
  from parent_response_exists_visibility[of ?q 2 condParentResponseExists ?cond None
      "Some exampleQuestions" utcRuntime "[1 \<mapsto> ''x'', 2 \<mapsto> ''yes'']" None ?p True None]
    h1 h2 h3 h4 h5 h6
  have a: "\<exists>c'. isQuestionVisible utcRuntime ?q [1 \<mapsto> ''x'', 2 \<mapsto> ''yes''] (Some exampleQuestions) None None
      = Some (True \<and> parentResponseExists (parseParentAnswer ([1 \<mapsto> ''x'', 2 \<mapsto> ''yes''] (2::nat))), c')"
    by blast
  from parent_response_exists_visibility[of ?q 2 condParentResponseExists ?cond None
      None utcRuntime "[1 \<mapsto> ''x'', 2 \<mapsto> ''[]'']" None]
    h1 h2 h3 h4 h7
  have b: "\<exists>c'. isQuestionVisible utcRuntime ?q [1 \<mapsto> ''x'', 2 \<mapsto> ''[]''] None None None
      = Some (parentResponseExists (parseParentAnswer ([1 \<mapsto> ''x'', 2 \<mapsto> ''[]''] (2::nat))), c')"
    by blast
  from a v1 have a': "\<exists>c'. isQuestionVisible utcRuntime ?q [1 \<mapsto> ''x'', 2 \<mapsto> ''yes''] (Some exampleQuestions) None None
      = Some (True, c')" by simp
  from b v2 have b': "\<exists>c'. isQuestionVisible utcRuntime ?q [1 \<mapsto> ''x'', 2 \<mapsto> ''[]''] None None None
      = Some (False, c')" by simp
  from h1 h2 a' b' show ?thesis by blast
qed

text \<open>
  The claim as stated fails when the parent is hidden: question 2 has the answer
  \<^verbatim>\<open>yes\<close>, which passes the test, but question 2 is itself hidden (question 1 has no
  answer), and so is question 4.
\<close>

theorem parent_response_exists_counterexample:
  "q_display_condition (exampleQuestion 4 (Some 2) (Some condParentResponseExists))
     = Some condParentResponseExists
   \<and> parentResponseExists (parseParentAnswer ([2 \<mapsto> ''yes''] (2::nat)))
   \<and> isQuestionVisible utcRuntime (exampleQuestion 4 (Some 2) (Some condParentResponseExists))
       [2 \<mapsto> ''yes''] (Some exampleQuestions) None None = Some (False, None)"
  by code_simp



section \<open>Rows are kept, and how they are stamped\<close>

lemma set_updateBy_ids:
  "(\<And>r. ident (change r) = ident r) \<Longrightarrow> map ident (updateBy matches change rows) = map ident rows"
  by (induction rows) (auto simp: updateBy_def)









lemma ensureEntry_tables:
  "TRACK_CATEGORY (ensureEntry rt pid date patient item s) = TRACK_CATEGORY s"
  "TRACK_ITEM (ensureEntry rt pid date patient item s) = TRACK_ITEM s"
  "QUESTION (ensureEntry rt pid date patient item s) = QUESTION s"
  "RESPONSE_OPTION (ensureEntry rt pid date patient item s) = RESPONSE_OPTION s"
  "TRACK_RESPONSE (ensureEntry rt pid date patient item s) = TRACK_RESPONSE s"
  "PATIENT (ensureEntry rt pid date patient item s) = PATIENT s"
  "clockCalls (ensureEntry rt pid date patient item s) = clockCalls s"
  by (simp_all add: ensureEntry_def Let_def split: option.splits)

lemma fold_ensureEntry_tables:
  "TRACK_CATEGORY (fold (ensureEntry rt pid date patient) xs s) = TRACK_CATEGORY s"
  "TRACK_ITEM (fold (ensureEntry rt pid date patient) xs s) = TRACK_ITEM s"
  "QUESTION (fold (ensureEntry rt pid date patient) xs s) = QUESTION s"
  "RESPONSE_OPTION (fold (ensureEntry rt pid date patient) xs s) = RESPONSE_OPTION s"
  "TRACK_RESPONSE (fold (ensureEntry rt pid date patient) xs s) = TRACK_RESPONSE s"
  "PATIENT (fold (ensureEntry rt pid date patient) xs s) = PATIENT s"
  "clockCalls (fold (ensureEntry rt pid date patient) xs s) = clockCalls s"
  by (induction xs arbitrary: s) (simp_all add: ensureEntry_tables)















subsection \<open>Editing a custom goal\<close>

lemma insertOption_tables:
  "TRACK_CATEGORY (insertOption rt qid code text s) = TRACK_CATEGORY s"
  "TRACK_ITEM (insertOption rt qid code text s) = TRACK_ITEM s"
  "QUESTION (insertOption rt qid code text s) = QUESTION s"
  "TRACK_ITEM_ENTRY (insertOption rt qid code text s) = TRACK_ITEM_ENTRY s"
  "TRACK_RESPONSE (insertOption rt qid code text s) = TRACK_RESPONSE s"
  "clockCalls (insertOption rt qid code text s) = clockCalls s"
  by (simp_all add: insertOption_def)






text \<open>
  The two shapes of \<open>editGoalQuestion\<close>: on an existing question (\<open>replaceOptions\<close> when
  options are supplied), and on a new one.
\<close>

lemma editGoalQuestion_existing:
  assumes "qu_id q = Some qid" "qid \<noteq> 0"
  shows "editGoalQuestion rt tid q s =
     (case qu_options q of
        None \<Rightarrow> s\<lparr>QUESTION := updateBy (\<lambda>x. q_id x = qid)
                    (\<lambda>x. x\<lparr>q_text := qu_text q, q_type := qu_type q,
                            q_required := (if (case qu_required q of None \<Rightarrow> False | Some b \<Rightarrow> b) then 1 else 0),
                            q_updated_date := now rt\<rparr>) (QUESTION s)\<rparr>
      | Some opts \<Rightarrow>
          fold (\<lambda>opt. insertUuidOption rt qid (trim opt)) opts
            (s\<lparr>QUESTION := updateBy (\<lambda>x. q_id x = qid)
                    (\<lambda>x. x\<lparr>q_text := qu_text q, q_type := qu_type q,
                            q_required := (if (case qu_required q of None \<Rightarrow> False | Some b \<Rightarrow> b) then 1 else 0),
                            q_updated_date := now rt\<rparr>) (QUESTION s),
               RESPONSE_OPTION := deleteBy (\<lambda>opt. o_question_id opt = qid) (RESPONSE_OPTION s)\<rparr>))"
  using assms by (simp add: editGoalQuestion_def Let_def split: option.splits)

lemma editGoalQuestion_new:
  assumes "qu_id q = None \<or> qu_id q = Some 0"
  shows "editGoalQuestion rt tid q s =
     (case qu_options q of
        None \<Rightarrow> fst (insertQuestion rt tid (''Q_'' @ stampCode rt (codesDrawn s)) (qu_text q) (qu_type q)
                       (case qu_required q of None \<Rightarrow> False | Some b \<Rightarrow> b)
                       (s\<lparr>codesDrawn := codesDrawn s + 1\<rparr>))
      | Some opts \<Rightarrow>
          fold (\<lambda>opt. insertStampOption rt
                  (snd (insertQuestion rt tid (''Q_'' @ stampCode rt (codesDrawn s)) (qu_text q) (qu_type q)
                       (case qu_required q of None \<Rightarrow> False | Some b \<Rightarrow> b)
                       (s\<lparr>codesDrawn := codesDrawn s + 1\<rparr>))) (trim opt)) opts
            (fst (insertQuestion rt tid (''Q_'' @ stampCode rt (codesDrawn s)) (qu_text q) (qu_type q)
                       (case qu_required q of None \<Rightarrow> False | Some b \<Rightarrow> b)
                       (s\<lparr>codesDrawn := codesDrawn s + 1\<rparr>))))"
  using assms by (auto simp: editGoalQuestion_def Let_def split: option.splits)














section \<open>Which timestamp a written row carries\<close>

lemma stamped_refl: "stamped t ident created updated rows rows"
  by (simp add: stamped_def)

lemma stamped_trans:
  assumes "stamped t ident created updated a b" "stamped t ident created updated b c"
  shows "stamped t ident created updated a c"
  unfolding stamped_def
proof
  fix r assume "r \<in> set c"
  with assms(2) consider "r \<in> set b"
    | "updated r = t" "created r = t"
    | r1 where "updated r = t" "r1 \<in> set b" "ident r1 = ident r" "created r1 = created r"
    unfolding stamped_def by blast
  then show "r \<in> set a \<or> (updated r = t \<and> (created r = t \<or> (\<exists>r0 \<in> set a. ident r0 = ident r \<and> created r0 = created r)))"
  proof cases
    case 1
    with assms(1) show ?thesis unfolding stamped_def by blast
  next
    case 2
    then show ?thesis by simp
  next
    case 3
    from assms(1) 3(2) have "r1 \<in> set a \<or> (updated r1 = t \<and> (created r1 = t \<or> (\<exists>r0 \<in> set a. ident r0 = ident r1 \<and> created r0 = created r1)))"
      unfolding stamped_def by blast
    with 3 show ?thesis by metis
  qed
qed

lemma stamped_append:
  "created r = t \<Longrightarrow> updated r = t \<Longrightarrow> stamped t ident created updated rows (rows @ [r])"
  by (auto simp: stamped_def)

lemma stamped_updateBy:
  assumes "\<And>r. updated (change r) = t" "\<And>r. created (change r) = created r"
    "\<And>r. ident (change r) = ident r"
  shows "stamped t ident created updated rows (updateBy matches change rows)"
  unfolding stamped_def updateBy_def using assms by auto

lemma stamped_deleteBy: "stamped t ident created updated rows (deleteBy matches rows)"
  by (auto simp: stamped_def deleteBy_def)

lemma stampedWithNow_refl: "stampedWithNow rt s s"
  by (simp add: stampedWithNow_def stamped_refl)

lemma stampedWithNow_trans:
  "stampedWithNow rt s s1 \<Longrightarrow> stampedWithNow rt s1 s2 \<Longrightarrow> stampedWithNow rt s s2"
  unfolding stampedWithNow_def using stamped_trans by (metis (no_types, lifting))

lemma stampedWithNow_fold:
  assumes "\<And>x u. stampedWithNow rt u (step x u)"
  shows "stampedWithNow rt s (fold step xs s)"
proof (induction xs arbitrary: s)
  case Nil
  show ?case by (simp add: stampedWithNow_refl)
next
  case (Cons x xs)
  have "stampedWithNow rt s (step x s)" by (rule assms)
  moreover have "stampedWithNow rt (step x s) (fold step xs (step x s))" by (rule Cons.IH)
  ultimately show ?case using stampedWithNow_trans by simp
qed

text \<open>The steps the six operations are made of.\<close>

lemma stamped_entries_only:
  assumes "stamped (now rt) e_id e_created_date e_updated_date (TRACK_ITEM_ENTRY s) es"
  shows "stampedWithNow rt s (s\<lparr>TRACK_ITEM_ENTRY := es\<rparr>)"
  using assms by (simp add: stampedWithNow_def stamped_refl)

lemma stamped_entry_reactivate:
  "stamped (now rt) e_id e_created_date e_updated_date rows
     (updateBy matches (\<lambda>e. e\<lparr>e_selected := v, e_updated_date := now rt\<rparr>) rows)"
  by (rule stamped_updateBy) simp_all

lemma stamped_entry_insert:
  "stamped (now rt) e_id e_created_date e_updated_date rows
     (rows @ [\<lparr>e_id = n, e_user_id = u, e_patient_id = p, e_track_item_id = i, e_date = d,
               e_selected = 1, e_created_date = now rt, e_updated_date = now rt\<rparr>])"
  by (rule stamped_append) simp_all

lemma stampedWithNow_ensureEntry:
  "stampedWithNow rt s (ensureEntry rt patientId date patient item s)"
  unfolding ensureEntry_def Let_def
  using stamped_entries_only[OF stamped_entry_reactivate] stamped_entries_only[OF stamped_entry_insert]
  by (auto simp: stampedWithNow_refl split: option.splits)

lemma stampedWithNow_ensureSubscribedEntries:
  "stampedWithNow rt s (ensureSubscribedEntries rt patientId date s)"
  unfolding ensureSubscribedEntries_def Let_def
  using stampedWithNow_fold[of rt "ensureEntry rt patientId date _", OF stampedWithNow_ensureEntry]
  by (auto simp: stampedWithNow_refl split: option.splits)

lemma stampedWithNow_addTrackItemOnDate:
  "stampedWithNow rt s (addTrackItemOnDate rt itemId userId patientId date s)"
  unfolding addTrackItemOnDate_def Let_def
  using stamped_entries_only[OF stamped_entry_reactivate] stamped_entries_only[OF stamped_entry_insert]
  by (auto split: option.splits)

lemma stampedWithNow_removeTrackItemFromDate:
  "stampedWithNow rt s (removeTrackItemFromDate rt itemId userId patientId date s)"
  unfolding removeTrackItemFromDate_def
  by (rule stamped_entries_only) (rule stamped_entry_reactivate)

lemma stampedWithNow_removeCustomGoal:
  "stampedWithNow rt s (removeCustomGoal rt trackItemId patientId s)"
proof -
  have a: "stamped (now rt) i_id i_created_date i_updated_date (TRACK_ITEM s)
     (updateBy (\<lambda>i. i_id i = trackItemId) (\<lambda>i. i\<lparr>i_status := ''inactive'', i_updated_date := now rt\<rparr>) (TRACK_ITEM s))"
    by (rule stamped_updateBy) simp_all
  show ?thesis
    unfolding removeCustomGoal_def Let_def
    using a stamped_entry_reactivate[of rt "TRACK_ITEM_ENTRY s"]
    by (simp add: stampedWithNow_def stamped_refl)
qed

lemma stampedWithNow_codesDrawn: "stampedWithNow rt s (s\<lparr>codesDrawn := n\<rparr>)"
  by (simp add: stampedWithNow_def stamped_refl)

lemma stampedWithNow_insertOption: "stampedWithNow rt s (insertOption rt qid code text s)"
  unfolding insertOption_def
  by (simp add: stampedWithNow_def stamped_refl stamped_append)

lemma stampedWithNow_insertUuidOption: "stampedWithNow rt s (insertUuidOption rt qid text s)"
  unfolding insertUuidOption_def
  using stampedWithNow_trans[OF stampedWithNow_codesDrawn stampedWithNow_insertOption] by blast

lemma stampedWithNow_insertStampOption: "stampedWithNow rt s (insertStampOption rt qid text s)"
  unfolding insertStampOption_def
  using stampedWithNow_trans[OF stampedWithNow_codesDrawn stampedWithNow_insertOption] by blast

lemma stampedWithNow_insertQuestion:
  "stampedWithNow rt s (fst (insertQuestion rt itemId code text type required s))"
  unfolding insertQuestion_def Let_def
  by (simp add: stampedWithNow_def stamped_refl stamped_append)

lemma stampedWithNow_addGoalQuestion: "stampedWithNow rt s (addGoalQuestion rt trackItemId question s)"
proof -
  define ins where "ins = insertQuestion rt trackItemId (uuidv4 rt (codesDrawn s)) (cq_text question)
                (cq_type question) (cq_required question) (s\<lparr>codesDrawn := codesDrawn s + 1\<rparr>)"
  have e: "addGoalQuestion rt trackItemId question s =
      (if cq_type question = type_BOOLEAN \<or> cq_type question = ''boolean'' then
           insertUuidOption rt (snd ins) ''No'' (insertUuidOption rt (snd ins) ''Yes'' (fst ins))
         else if cq_type question = type_MCQ \<or> cq_type question = type_MSQ
                 \<or> cq_type question = ''mcq'' \<or> cq_type question = ''msq'' then
           (case cq_options question of
              None \<Rightarrow> fst ins
            | Some opts \<Rightarrow>
                fold (\<lambda>opt. insertUuidOption rt (snd ins) (trim opt))
                  (filter (\<lambda>x. x \<noteq> [] \<and> 0 < length (trim x)) opts) (fst ins))
         else fst ins)"
    unfolding addGoalQuestion_def ins_def Let_def by (rule refl)
  have k1: "stampedWithNow rt s (fst ins)"
    unfolding ins_def using stampedWithNow_trans[OF stampedWithNow_codesDrawn stampedWithNow_insertQuestion] by blast
  have yes: "stampedWithNow rt (fst ins) (insertUuidOption rt (snd ins) ''No''
                (insertUuidOption rt (snd ins) ''Yes'' (fst ins)))"
    using stampedWithNow_trans[OF stampedWithNow_insertUuidOption stampedWithNow_insertUuidOption] by blast
  have opts: "\<And>xs. stampedWithNow rt (fst ins)
                (fold (\<lambda>opt. insertUuidOption rt (snd ins) (trim opt)) xs (fst ins))"
    by (rule stampedWithNow_fold) (rule stampedWithNow_insertUuidOption)
  show ?thesis
    unfolding e
    using k1 stampedWithNow_trans[OF k1 yes] stampedWithNow_trans[OF k1 opts]
    by (auto split: option.splits)
qed

lemma stampedWithNow_addCustomGoal:
  assumes a: "addCustomGoal rt params s = Inr (s', newId)"
  shows "stampedWithNow rt s s'"
proof -
  from a obtain category where c: "getFirstBy (\<lambda>c. c_name c = ''Custom'') (TRACK_CATEGORY s) = Some category"
    by (auto simp: addCustomGoal_def split: option.splits)
  let ?s1 = "s\<lparr>TRACK_ITEM := TRACK_ITEM s @
                       [\<lparr>i_id = nextId (map i_id (TRACK_ITEM s)),
                         i_category_id = c_id category,
                         i_code = uuidv4 rt (codesDrawn s),
                         i_name = cg_name params,
                         i_frequency = cg_frequency params,
                         i_status = ''active'',
                         i_created_date = now rt,
                         i_updated_date = now rt\<rparr>],
                     codesDrawn := codesDrawn s + 1\<rparr>"
  have s': "s' = fold (addGoalQuestion rt (nextId (map i_id (TRACK_ITEM s)))) (cg_questions params) ?s1"
    using a c by (auto simp: addCustomGoal_def Let_def)
  have k1: "stampedWithNow rt s ?s1"
    by (simp add: stampedWithNow_def stamped_refl stamped_append)
  have "stampedWithNow rt ?s1 s'"
    unfolding s' by (rule stampedWithNow_fold) (rule stampedWithNow_addGoalQuestion)
  with k1 show ?thesis using stampedWithNow_trans by blast
qed

lemma stampedWithNow_editGoalQuestion:
  "stampedWithNow rt s (editGoalQuestion rt tid q s)"
proof (cases "qu_id q = None \<or> qu_id q = Some 0")
  case True
  let ?ins = "insertQuestion rt tid (''Q_'' @ stampCode rt (codesDrawn s)) (qu_text q) (qu_type q)
                       (case qu_required q of None \<Rightarrow> False | Some b \<Rightarrow> b)
                       (s\<lparr>codesDrawn := codesDrawn s + 1\<rparr>)"
  have k1: "stampedWithNow rt s (fst ?ins)"
    using stampedWithNow_trans[OF stampedWithNow_codesDrawn stampedWithNow_insertQuestion] by blast
  have "\<And>xs. stampedWithNow rt (fst ?ins) (fold (\<lambda>opt. insertStampOption rt (snd ?ins) (trim opt)) xs (fst ?ins))"
    by (rule stampedWithNow_fold) (rule stampedWithNow_insertStampOption)
  from stampedWithNow_trans[OF k1 this] k1 show ?thesis
    unfolding editGoalQuestion_new[OF True]
    by (auto split: option.splits)
next
  case False
  then obtain qid where q: "qu_id q = Some qid" "qid \<noteq> 0" by auto
  let ?upd = "updateBy (\<lambda>x. q_id x = qid)
                    (\<lambda>x. x\<lparr>q_text := qu_text q, q_type := qu_type q,
                            q_required := (if (case qu_required q of None \<Rightarrow> False | Some b \<Rightarrow> b) then 1 else 0),
                            q_updated_date := now rt\<rparr>) (QUESTION s)"
  have u: "stamped (now rt) q_id q_created_date q_updated_date (QUESTION s) ?upd"
    by (rule stamped_updateBy) simp_all
  have a: "stampedWithNow rt s (s\<lparr>QUESTION := ?upd\<rparr>)"
    using u by (simp add: stampedWithNow_def stamped_refl)
  have b: "stampedWithNow rt s (s\<lparr>QUESTION := ?upd,
               RESPONSE_OPTION := deleteBy (\<lambda>opt. o_question_id opt = qid) (RESPONSE_OPTION s)\<rparr>)"
    using u by (simp add: stampedWithNow_def stamped_refl stamped_deleteBy)
  have c: "\<And>u xs. stampedWithNow rt u (fold (\<lambda>opt. insertUuidOption rt qid (trim opt)) xs u)"
    by (rule stampedWithNow_fold) (rule stampedWithNow_insertUuidOption)
  show ?thesis
    unfolding editGoalQuestion_existing[OF q]
    using a stampedWithNow_trans[OF b c] by (auto split: option.splits)
qed

lemma stampedWithNow_editCustomGoal:
  "stampedWithNow rt s (editCustomGoal rt tid updates s)"
proof -
  define s1 where "s1 = (case gu_name updates of
                  None \<Rightarrow> s
                | Some name \<Rightarrow>
                    if name = [] then s
                    else s\<lparr>TRACK_ITEM :=
                            updateBy (\<lambda>i. i_id i = tid)
                              (\<lambda>i. i\<lparr>i_name := name, i_updated_date := now rt\<rparr>)
                              (TRACK_ITEM s)\<rparr>)"
  have e: "editCustomGoal rt tid updates s =
             (case gu_questions updates of None \<Rightarrow> s1 | Some qs \<Rightarrow> fold (editGoalQuestion rt tid) qs s1)"
    unfolding editCustomGoal_def s1_def Let_def by (rule refl)
  have u: "\<And>name. stamped (now rt) i_id i_created_date i_updated_date (TRACK_ITEM s)
       (updateBy (\<lambda>i. i_id i = tid) (\<lambda>i. i\<lparr>i_name := name, i_updated_date := now rt\<rparr>) (TRACK_ITEM s))"
    by (rule stamped_updateBy) simp_all
  have k1: "stampedWithNow rt s s1"
    using u by (simp add: s1_def stampedWithNow_def stamped_refl split: option.splits)
  have "\<And>qs. stampedWithNow rt s1 (fold (editGoalQuestion rt tid) qs s1)"
    by (rule stampedWithNow_fold) (rule stampedWithNow_editGoalQuestion)
  from stampedWithNow_trans[OF k1 this] k1 show ?thesis
    unfolding e by (auto split: option.splits)
qed

text \<open>The two operations that read the clock.\<close>

lemma stampedByClock_saveResponse:
  "stampedByClock rt s (saveResponse rt entryId questionId answer userId patientId s)
     r_created_date r_updated_date (TRACK_RESPONSE s)
     (TRACK_RESPONSE (saveResponse rt entryId questionId answer userId patientId s))"
proof (cases "getFirstBy (\<lambda>r. r_track_item_entry_id r = entryId \<and> r_question_id r = questionId
                          \<and> r_user_id r = userId \<and> r_patient_id r = patientId) (TRACK_RESPONSE s)")
  case None
  then show ?thesis
    by (auto simp: stampedByClock_def saveResponse_def Let_def)
next
  case (Some existing)
  then show ?thesis
    by (auto simp: stampedByClock_def saveResponse_def Let_def updateBy_def)
qed

lemma stampedByClock_addOptionToQuestion:
  "stampedByClock rt s (fst (addOptionToQuestion rt questionId label s))
     o_created_date o_updated_date (RESPONSE_OPTION s)
     (RESPONSE_OPTION (fst (addOptionToQuestion rt questionId label s)))"
  by (auto simp: stampedByClock_def addOptionToQuestion_def Let_def)

text \<open>
  Claim C10. Every row that \<^verbatim>\<open>ensureSubscribedEntries\<close>, \<^verbatim>\<open>addTrackItemOnDate\<close>,
  \<^verbatim>\<open>removeTrackItemFromDate\<close>, \<^verbatim>\<open>addCustomGoal\<close>, \<^verbatim>\<open>editCustomGoal\<close> and
  \<^verbatim>\<open>removeCustomGoal\<close> write carries the module constant \<^verbatim>\<open>now\<close> as its
  \<^verbatim>\<open>updated_date\<close>, and as its \<^verbatim>\<open>created_date\<close> when the row is new; these six never
  read the clock. \<^verbatim>\<open>saveResponse\<close> and \<^verbatim>\<open>addOptionToQuestion\<close> read the clock at each
  call and stamp what it returns then.
\<close>

theorem writes_stamped_with_module_constant:
  "stampedWithNow rt s (ensureSubscribedEntries rt patientId date s)
   \<and> stampedWithNow rt s (addTrackItemOnDate rt itemId userId patientId date s)
   \<and> stampedWithNow rt s (removeTrackItemFromDate rt itemId userId patientId date s)
   \<and> (\<forall>s' newId. addCustomGoal rt params s = Inr (s', newId) \<longrightarrow> stampedWithNow rt s s')
   \<and> stampedWithNow rt s (editCustomGoal rt trackItemId updates s)
   \<and> stampedWithNow rt s (removeCustomGoal rt trackItemId patientId s)
   \<and> stampedByClock rt s (saveResponse rt entryId questionId answer userId patientId s)
        r_created_date r_updated_date (TRACK_RESPONSE s)
        (TRACK_RESPONSE (saveResponse rt entryId questionId answer userId patientId s))
   \<and> stampedByClock rt s (fst (addOptionToQuestion rt questionId label s))
        o_created_date o_updated_date (RESPONSE_OPTION s)
        (RESPONSE_OPTION (fst (addOptionToQuestion rt questionId label s)))"
  using stampedWithNow_ensureSubscribedEntries stampedWithNow_addTrackItemOnDate
    stampedWithNow_removeTrackItemFromDate stampedWithNow_addCustomGoal
    stampedWithNow_editCustomGoal stampedWithNow_removeCustomGoal
    stampedByClock_saveResponse stampedByClock_addOptionToQuestion
  by (intro conjI allI impI) blast+

theorem writes_stamped_with_module_constant_witness:
  "(case addCustomGoal utcRuntime exampleGoal exampleDb of
      Inl e \<Rightarrow> False
    | Inr r \<Rightarrow> stampedWithNow utcRuntime exampleDb (fst r)
             \<and> map i_created_date (drop 4 (TRACK_ITEM (fst r))) = [now utcRuntime])
   \<and> stampedWithNow utcRuntime exampleDb (ensureSubscribedEntries utcRuntime 1 ''01-15-2024'' exampleDb)
   \<and> map e_updated_date
         (drop 4 (TRACK_ITEM_ENTRY (ensureSubscribedEntries utcRuntime 1 ''01-15-2024'' exampleDb)))
       = [now utcRuntime, now utcRuntime, now utcRuntime]
   \<and> stampedByClock utcRuntime exampleDb (saveResponse utcRuntime 4 7 ''Walk'' ''u1'' 1 exampleDb)
        r_created_date r_updated_date (TRACK_RESPONSE exampleDb)
        (TRACK_RESPONSE (saveResponse utcRuntime 4 7 ''Walk'' ''u1'' 1 exampleDb))
   \<and> map r_updated_date (TRACK_RESPONSE (saveResponse utcRuntime 4 7 ''Walk'' ''u1'' 1 exampleDb))
       = [clock utcRuntime 1]"
proof -
  note inst = writes_stamped_with_module_constant[where s = exampleDb and rt = utcRuntime
      and params = exampleGoal and patientId = 1 and date = "''01-15-2024''"
      and entryId = 4 and questionId = 7 and answer = "''Walk''" and userId = "''u1''"]
  have g: "case addCustomGoal utcRuntime exampleGoal exampleDb of
             Inl e \<Rightarrow> False
           | Inr r \<Rightarrow> map i_created_date (drop 4 (TRACK_ITEM (fst r))) = [now utcRuntime]"
    by code_simp
  then obtain s' n where s': "addCustomGoal utcRuntime exampleGoal exampleDb = Inr (s', n)"
    by (cases "addCustomGoal utcRuntime exampleGoal exampleDb") auto
  from inst s' have k: "stampedWithNow utcRuntime exampleDb s'" by blast
  from inst have e: "stampedWithNow utcRuntime exampleDb
      (ensureSubscribedEntries utcRuntime 1 ''01-15-2024'' exampleDb)" by blast
  have e': "map e_updated_date
         (drop 4 (TRACK_ITEM_ENTRY (ensureSubscribedEntries utcRuntime 1 ''01-15-2024'' exampleDb)))
       = [now utcRuntime, now utcRuntime, now utcRuntime]" by code_simp
  from inst have r: "stampedByClock utcRuntime exampleDb (saveResponse utcRuntime 4 7 ''Walk'' ''u1'' 1 exampleDb)
        r_created_date r_updated_date (TRACK_RESPONSE exampleDb)
        (TRACK_RESPONSE (saveResponse utcRuntime 4 7 ''Walk'' ''u1'' 1 exampleDb))" by blast
  have r': "map r_updated_date (TRACK_RESPONSE (saveResponse utcRuntime 4 7 ''Walk'' ''u1'' 1 exampleDb))
       = [clock utcRuntime 1]" by code_simp
  from g s' k e e' r r' show ?thesis by simp
qed

section \<open>Subscription inference is idempotent\<close>

lemma find_append_cases:
  "find P (xs @ ys) = (case find P xs of Some x \<Rightarrow> Some x | None \<Rightarrow> find P ys)"
  by (induction xs) auto

lemma find_updateBy:
  assumes "\<And>r. P (change r) = P r"
  shows "find P (updateBy Q change xs) = map_option (\<lambda>r. if Q r then change r else r) (find P xs)"
  using assms by (induction xs) (auto simp: updateBy_def)

lemma find_Some_set: "find P xs = Some x \<Longrightarrow> x \<in> set xs \<and> P x"
  by (induction xs) (auto split: if_splits)

lemma fold_max_ge: "(a::nat) \<le> fold max xs a \<and> (\<forall>x \<in> set xs. x \<le> fold max xs a)"
proof (induction xs arbitrary: a)
  case Nil
  show ?case by simp
next
  case (Cons x xs)
  from Cons.IH[of "max x a"] show ?case by auto
qed

lemma nextId_fresh: "nextId ids \<notin> set ids"
  using fold_max_ge[of 0 ids] by (auto simp: nextId_def)

text \<open>For a settled item the loop body leaves the store as it is.\<close>

lemma settled_noop:
  "settled rt pid date s item \<Longrightarrow> ensureEntry rt pid date patient item s = s"
  by (auto simp: settled_def ensureEntry_def Let_def split: option.splits)

text \<open>The loop body settles its item, and keeps every settled item settled.\<close>

lemma ensureEntry_settles:
  "settled rt pid date (ensureEntry rt pid date patient item s) item"
proof (cases "shouldCreateEntryForDate rt date (snd item)")
  case False
  then show ?thesis by (simp add: settled_def)
next
  case True
  let ?m = "\<lambda>e. e_track_item_id e = fst item \<and> e_patient_id e = pid
                \<and> e_date e = normalizeDateByFrequency rt date (snd item)"
  show ?thesis
  proof (cases "find ?m (TRACK_ITEM_ENTRY s)")
    case None
    then show ?thesis
      using True by (simp add: settled_def ensureEntry_def Let_def getFirstBy_def find_append_cases)
  next
    case (Some existing)
    show ?thesis
    proof (cases "e_selected existing = 1")
      case sel: True
      with Some True show ?thesis
        by (simp add: settled_def ensureEntry_def Let_def getFirstBy_def)
    next
      case sel: False
      have "find ?m (updateBy (\<lambda>e. e_id e = e_id existing)
                (\<lambda>e. e\<lparr>e_selected := 1, e_updated_date := now rt\<rparr>) (TRACK_ITEM_ENTRY s))
            = Some (existing\<lparr>e_selected := 1, e_updated_date := now rt\<rparr>)"
        by (subst find_updateBy) (simp_all add: Some)
      with Some True sel show ?thesis
        by (simp add: settled_def ensureEntry_def Let_def getFirstBy_def)
    qed
  qed
qed

lemma ensureEntry_keeps_settled:
  assumes "settled rt pid date s x"
  shows "settled rt pid date (ensureEntry rt pid date patient item s) x"
proof (cases "shouldCreateEntryForDate rt date (snd x)")
  case False
  then show ?thesis by (simp add: settled_def)
next
  case True
  let ?mx = "\<lambda>e. e_track_item_id e = fst x \<and> e_patient_id e = pid
                \<and> e_date e = normalizeDateByFrequency rt date (snd x)"
  from assms True obtain e where e: "find ?mx (TRACK_ITEM_ENTRY s) = Some e" "e_selected e = 1"
    by (auto simp: settled_def getFirstBy_def split: option.splits)
  have app: "\<And>r. find ?mx (TRACK_ITEM_ENTRY s @ [r]) = Some e"
    by (simp add: find_append_cases e)
  have upd: "\<And>Q. find ?mx (updateBy Q (\<lambda>e. e\<lparr>e_selected := 1, e_updated_date := now rt\<rparr>)
                      (TRACK_ITEM_ENTRY s))
             = Some (if Q e then e\<lparr>e_selected := 1, e_updated_date := now rt\<rparr> else e)"
    by (subst find_updateBy) (simp_all add: e)
  show ?thesis
    unfolding settled_def ensureEntry_def Let_def getFirstBy_def
    using e app upd by (auto split: option.splits)
qed

lemma fold_keeps_settled:
  "settled rt pid date s x \<Longrightarrow> settled rt pid date (fold (ensureEntry rt pid date patient) xs s) x"
  by (induction xs arbitrary: s) (simp_all add: ensureEntry_keeps_settled)

lemma fold_settles:
  "x \<in> set xs \<Longrightarrow> settled rt pid date (fold (ensureEntry rt pid date patient) xs s) x"
proof (induction xs arbitrary: s)
  case Nil
  then show ?case by simp
next
  case (Cons y ys)
  show ?case
  proof (cases "x = y")
    case True
    then show ?thesis using fold_keeps_settled[OF ensureEntry_settles] by simp
  next
    case False
    with Cons show ?thesis by simp
  qed
qed

lemma fold_settled_noop:
  "(\<forall>x \<in> set xs. settled rt pid date s x) \<Longrightarrow> fold (ensureEntry rt pid date patient) xs s = s"
  by (induction xs) (simp_all add: settled_noop)

text \<open>The pairs the query of lines 78 to 87 returns.\<close>

lemma subscribedItems_iff:
  "item \<in> set (subscribedItems s pid) \<longleftrightarrow>
     (\<exists>ti \<in> set (TRACK_ITEM s). \<exists>tc \<in> set (TRACK_CATEGORY s). \<exists>tie \<in> set (TRACK_ITEM_ENTRY s).
        item = (i_id ti, i_frequency ti)
        \<and> c_id tc = i_category_id ti \<and> e_track_item_id tie = i_id ti
        \<and> c_status tc = ''active'' \<and> i_status ti = ''active''
        \<and> e_patient_id tie = pid \<and> e_selected tie = 1)"
  by (auto simp: subscribedItems_def)

lemma ensureEntry_selectedFrom:
  assumes src: "\<exists>e0 \<in> set before. e_track_item_id e0 = fst item \<and> e_patient_id e0 = pid \<and> e_selected e0 = 1"
    and d: "distinct (map e_id (TRACK_ITEM_ENTRY u))"
    and inv: "selectedFrom pid before (TRACK_ITEM_ENTRY u)"
  shows "selectedFrom pid before (TRACK_ITEM_ENTRY (ensureEntry rt pid date patient item u))
         \<and> distinct (map e_id (TRACK_ITEM_ENTRY (ensureEntry rt pid date patient item u)))"
proof (cases "shouldCreateEntryForDate rt date (snd item)")
  case False
  with d inv show ?thesis by (simp add: ensureEntry_def)
next
  case True
  let ?m = "\<lambda>e. e_track_item_id e = fst item \<and> e_patient_id e = pid
                \<and> e_date e = normalizeDateByFrequency rt date (snd item)"
  show ?thesis
  proof (cases "find ?m (TRACK_ITEM_ENTRY u)")
    case None
    have "selectedFrom pid before (TRACK_ITEM_ENTRY u @
            [\<lparr>e_id = nextId (map e_id (TRACK_ITEM_ENTRY u)), e_user_id = p_user_id patient,
              e_patient_id = pid, e_track_item_id = fst item,
              e_date = normalizeDateByFrequency rt date (snd item), e_selected = 1,
              e_created_date = now rt, e_updated_date = now rt\<rparr>])"
      using inv src unfolding selectedFrom_def by auto
    moreover have "distinct (map e_id (TRACK_ITEM_ENTRY u) @ [nextId (map e_id (TRACK_ITEM_ENTRY u))])"
      using d nextId_fresh[of "map e_id (TRACK_ITEM_ENTRY u)"] by simp
    ultimately show ?thesis
      using True None by (simp add: ensureEntry_def Let_def getFirstBy_def)
  next
    case (Some existing)
    from find_Some_set[OF Some] have ex: "existing \<in> set (TRACK_ITEM_ENTRY u)"
      "e_track_item_id existing = fst item" "e_patient_id existing = pid" by simp_all
    have same: "\<And>e. e \<in> set (TRACK_ITEM_ENTRY u) \<Longrightarrow> e_id e = e_id existing \<Longrightarrow> e = existing"
      using d ex(1) by (meson distinct_map inj_onD)
    have "selectedFrom pid before
            (updateBy (\<lambda>e. e_id e = e_id existing)
               (\<lambda>e. e\<lparr>e_selected := 1, e_updated_date := now rt\<rparr>) (TRACK_ITEM_ENTRY u))"
      unfolding selectedFrom_def updateBy_def
    proof
      fix e assume "e \<in> set (map (\<lambda>r. if e_id r = e_id existing
                        then r\<lparr>e_selected := 1, e_updated_date := now rt\<rparr> else r) (TRACK_ITEM_ENTRY u))"
      then obtain r where r: "r \<in> set (TRACK_ITEM_ENTRY u)"
        "e = (if e_id r = e_id existing then r\<lparr>e_selected := 1, e_updated_date := now rt\<rparr> else r)"
        by auto
      show "e_patient_id e = pid \<and> e_selected e = 1 \<longrightarrow>
            (\<exists>e0 \<in> set before. e_track_item_id e0 = e_track_item_id e
                             \<and> e_patient_id e0 = pid \<and> e_selected e0 = 1)"
      proof (cases "e_id r = e_id existing")
        case True
        with same[OF r(1)] have "r = existing" by simp
        with r(2) ex src show ?thesis by simp
      next
        case False
        with r inv show ?thesis unfolding selectedFrom_def by simp
      qed
    qed
    moreover have "map e_id (updateBy (\<lambda>e. e_id e = e_id existing)
               (\<lambda>e. e\<lparr>e_selected := 1, e_updated_date := now rt\<rparr>) (TRACK_ITEM_ENTRY u))
             = map e_id (TRACK_ITEM_ENTRY u)"
      by (rule set_updateBy_ids) simp
    ultimately show ?thesis
      using True Some d inv by (simp add: ensureEntry_def Let_def getFirstBy_def)
  qed
qed

lemma fold_ensureEntry_selectedFrom:
  assumes "\<forall>item \<in> set xs. \<exists>e0 \<in> set before.
             e_track_item_id e0 = fst item \<and> e_patient_id e0 = pid \<and> e_selected e0 = 1"
    and "distinct (map e_id (TRACK_ITEM_ENTRY u))"
    and "selectedFrom pid before (TRACK_ITEM_ENTRY u)"
  shows "selectedFrom pid before (TRACK_ITEM_ENTRY (fold (ensureEntry rt pid date patient) xs u))"
  using assms
proof (induction xs arbitrary: u)
  case Nil
  then show ?case by simp
next
  case (Cons x xs)
  from Cons.prems(1) have src: "\<exists>e0 \<in> set before.
             e_track_item_id e0 = fst x \<and> e_patient_id e0 = pid \<and> e_selected e0 = 1" by simp
  from ensureEntry_selectedFrom[OF src Cons.prems(2,3), of rt date patient]
  have step: "selectedFrom pid before (TRACK_ITEM_ENTRY (ensureEntry rt pid date patient x u))"
    "distinct (map e_id (TRACK_ITEM_ENTRY (ensureEntry rt pid date patient x u)))" by simp_all
  from Cons.prems(1) have rest: "\<forall>item \<in> set xs. \<exists>e0 \<in> set before.
             e_track_item_id e0 = fst item \<and> e_patient_id e0 = pid \<and> e_selected e0 = 1" by simp
  from Cons.IH[OF rest step(2) step(1)] show ?case by simp
qed

lemma subscribed_after_loop:
  assumes d: "distinct (map e_id (TRACK_ITEM_ENTRY s))"
    and item: "item \<in> set (subscribedItems (fold (ensureEntry rt pid date patient) (subscribedItems s pid) s) pid)"
  shows "item \<in> set (subscribedItems s pid)"
proof -
  let ?s1 = "fold (ensureEntry rt pid date patient) (subscribedItems s pid) s"
  have src: "\<forall>item \<in> set (subscribedItems s pid). \<exists>e0 \<in> set (TRACK_ITEM_ENTRY s).
             e_track_item_id e0 = fst item \<and> e_patient_id e0 = pid \<and> e_selected e0 = 1"
    by (auto simp: subscribedItems_iff)
  have "selectedFrom pid (TRACK_ITEM_ENTRY s) (TRACK_ITEM_ENTRY s)"
    unfolding selectedFrom_def by blast
  from fold_ensureEntry_selectedFrom[OF src d this]
  have sf: "selectedFrom pid (TRACK_ITEM_ENTRY s) (TRACK_ITEM_ENTRY ?s1)" .
  from item obtain ti tc tie where t: "ti \<in> set (TRACK_ITEM ?s1)" "tc \<in> set (TRACK_CATEGORY ?s1)"
    "tie \<in> set (TRACK_ITEM_ENTRY ?s1)" "item = (i_id ti, i_frequency ti)"
    "c_id tc = i_category_id ti" "e_track_item_id tie = i_id ti"
    "c_status tc = ''active''" "i_status ti = ''active''" "e_patient_id tie = pid" "e_selected tie = 1"
    unfolding subscribedItems_iff by blast
  from sf t(3,9,10) obtain e0 where e0: "e0 \<in> set (TRACK_ITEM_ENTRY s)"
    "e_track_item_id e0 = e_track_item_id tie" "e_patient_id e0 = pid" "e_selected e0 = 1"
    unfolding selectedFrom_def by blast
  from t(1,2) have "ti \<in> set (TRACK_ITEM s)" "tc \<in> set (TRACK_CATEGORY s)"
    by (simp_all add: fold_ensureEntry_tables)
  with t e0 show ?thesis unfolding subscribedItems_iff by auto
qed

lemma ensureSubscribedEntries_twice:
  assumes d: "distinct (map e_id (TRACK_ITEM_ENTRY s))"
  shows "ensureSubscribedEntries rt pid date (ensureSubscribedEntries rt pid date s)
         = ensureSubscribedEntries rt pid date s"
proof (cases "subscribedItems s pid = []")
  case True
  then show ?thesis by (simp add: ensureSubscribedEntries_def)
next
  case ne: False
  show ?thesis
  proof (cases "getFirstBy (\<lambda>p. p_id p = pid) (PATIENT s)")
    case None
    with ne show ?thesis by (simp add: ensureSubscribedEntries_def)
  next
    case (Some patient)
    let ?s1 = "fold (ensureEntry rt pid date patient) (subscribedItems s pid) s"
    have s1: "ensureSubscribedEntries rt pid date s = ?s1"
      using ne Some by (simp add: ensureSubscribedEntries_def)
    have p1: "getFirstBy (\<lambda>p. p_id p = pid) (PATIENT ?s1) = Some patient"
      using Some by (simp add: fold_ensureEntry_tables)
    have all: "\<forall>x \<in> set (subscribedItems ?s1 pid). settled rt pid date ?s1 x"
      using subscribed_after_loop[OF d] fold_settles by blast
    have "ensureSubscribedEntries rt pid date ?s1 = ?s1"
      using p1 fold_settled_noop[OF all] by (simp add: ensureSubscribedEntries_def Let_def)
    with s1 show ?thesis by simp
  qed
qed

text \<open>
  Claim C1. In a store whose entries have distinct ids (the primary key), a second run of
  \<^verbatim>\<open>ensureSubscribedEntries\<close> for the same patient and date right after a first one
  leaves the store as the first run left it: no row is inserted, and no \<^verbatim>\<open>selected\<close>
  (nor any other field) changes. When the patient has no subscribed item, or there is no
  row of the patient, the call writes nothing.
\<close>

theorem ensureSubscribedEntries_idempotent:
  "(distinct (map e_id (TRACK_ITEM_ENTRY s)) \<longrightarrow>
      ensureSubscribedEntries rt patientId date (ensureSubscribedEntries rt patientId date s)
        = ensureSubscribedEntries rt patientId date s)
   \<and> (subscribedItems s patientId = [] \<or> getFirstBy (\<lambda>p. p_id p = patientId) (PATIENT s) = None
      \<longrightarrow> ensureSubscribedEntries rt patientId date s = s)"
proof (intro conjI impI)
  assume "distinct (map e_id (TRACK_ITEM_ENTRY s))"
  then show "ensureSubscribedEntries rt patientId date (ensureSubscribedEntries rt patientId date s)
        = ensureSubscribedEntries rt patientId date s"
    by (rule ensureSubscribedEntries_twice)
next
  assume "subscribedItems s patientId = [] \<or> getFirstBy (\<lambda>p. p_id p = patientId) (PATIENT s) = None"
  then show "ensureSubscribedEntries rt patientId date s = s"
    by (auto simp: ensureSubscribedEntries_def Let_def)
qed

theorem ensureSubscribedEntries_idempotent_witness:
  "distinct (map e_id (TRACK_ITEM_ENTRY exampleDb))
   \<and> map e_id (TRACK_ITEM_ENTRY (ensureSubscribedEntries utcRuntime 1 ''01-15-2024'' exampleDb))
       = [1, 2, 3, 4, 5, 6, 7]
   \<and> ensureSubscribedEntries utcRuntime 1 ''01-15-2024''
        (ensureSubscribedEntries utcRuntime 1 ''01-15-2024'' exampleDb)
       = ensureSubscribedEntries utcRuntime 1 ''01-15-2024'' exampleDb
   \<and> subscribedItems exampleDb 2 = []
   \<and> ensureSubscribedEntries utcRuntime 2 ''01-15-2024'' exampleDb = exampleDb"
proof -
  note inst1 = ensureSubscribedEntries_idempotent[where s = exampleDb and rt = utcRuntime
      and patientId = 1 and date = "''01-15-2024''"]
  note inst2 = ensureSubscribedEntries_idempotent[where s = exampleDb and rt = utcRuntime
      and patientId = 2 and date = "''01-15-2024''"]
  have d: "distinct (map e_id (TRACK_ITEM_ENTRY exampleDb))" by code_simp
  have w: "map e_id (TRACK_ITEM_ENTRY (ensureSubscribedEntries utcRuntime 1 ''01-15-2024'' exampleDb))
       = [1, 2, 3, 4, 5, 6, 7]" by code_simp
  have e: "subscribedItems exampleDb 2 = []" by code_simp
  from inst1 d have a: "ensureSubscribedEntries utcRuntime 1 ''01-15-2024''
        (ensureSubscribedEntries utcRuntime 1 ''01-15-2024'' exampleDb)
       = ensureSubscribedEntries utcRuntime 1 ''01-15-2024'' exampleDb" by blast
  from inst2 e have b: "ensureSubscribedEntries utcRuntime 2 ''01-15-2024'' exampleDb = exampleDb" by blast
  from d w a e b show ?thesis by simp
qed

section \<open>Properties of the date helpers\<close>

subsection \<open>Decimal numerals\<close>

lemma digitChar_props:
  "n < 10 \<Longrightarrow> isDigit (digitChar n) \<and> digitVal (digitChar n) = n"
proof -
  assume "n < 10"
  then have "n \<in> {0, 1, 2, 3, 4, 5, 6, 7, 8, 9}" by auto
  then show ?thesis
    by (auto simp: isDigit_def digitVal_def digitChar_def)
qed

lemma digitsVal_snoc: "digitsVal (ds @ [c]) = 10 * digitsVal ds + digitVal c"
  by (simp add: digitsVal_def)

lemma showPos_props:
  "0 \<le> n \<Longrightarrow> showPos n \<noteq> [] \<and> list_all isDigit (showPos n) \<and> int (digitsVal (showPos n)) = n"
proof (induction n rule: showPos.induct)
  case (1 n)
  show ?case
  proof (cases "n < 10")
    case True
    with 1(2) have "nat n < 10" by simp
    from digitChar_props[OF this] True 1(2) show ?thesis
      by (subst (1 2 3) showPos.simps) (simp add: digitsVal_def)
  next
    case False
    with 1 have ih: "showPos (n div 10) \<noteq> []" "list_all isDigit (showPos (n div 10))"
      "int (digitsVal (showPos (n div 10))) = n div 10" by simp_all
    have "nat (n mod 10) < 10" by simp
    from digitChar_props[OF this] have dc: "isDigit (digitChar (nat (n mod 10)))"
      "digitVal (digitChar (nat (n mod 10))) = nat (n mod 10)" by simp_all
    have "int (10 * digitsVal (showPos (n div 10)) + nat (n mod 10)) = 10 * (n div 10) + n mod 10"
      using ih(3) by simp
    then have "int (10 * digitsVal (showPos (n div 10)) + nat (n mod 10)) = n" by simp
    with False ih dc show ?thesis
      by (subst (1 2 3) showPos.simps) (simp add: digitsVal_snoc)
  qed
qed

lemma showPos_length:
  "0 \<le> n \<Longrightarrow> n < 10 \<Longrightarrow> length (showPos n) = 1"
  "10 \<le> n \<Longrightarrow> n < 100 \<Longrightarrow> length (showPos n) = 2"
proof -
  show one: "\<And>k. 0 \<le> k \<Longrightarrow> k < 10 \<Longrightarrow> length (showPos k) = 1"
    by (subst showPos.simps) simp
  assume "10 \<le> n" "n < 100"
  then have "0 \<le> n div 10" "n div 10 < 10" by simp_all
  from one[OF this] \<open>10 \<le> n\<close> show "length (showPos n) = 2"
    by (subst showPos.simps) simp
qed

lemma padStart2_two:
  assumes "0 \<le> n" "n < 100"
  shows "length (padStart2 (showInt n)) = 2 \<and> list_all isDigit (padStart2 (showInt n))
         \<and> int (digitsVal (padStart2 (showInt n))) = n"
proof (cases "n < 10")
  case True
  with assms showPos_length(1)[of n] have l: "length (showPos n) = 1" by simp
  have z: "isDigit (CHR ''0'')" by (simp add: isDigit_def)
  have "digitsVal (CHR ''0'' # showPos n) = digitsVal (showPos n)"
    by (simp add: digitsVal_def digitVal_def)
  with l z showPos_props[OF assms(1)] assms show ?thesis
    by (simp add: padStart2_def showInt_def)
next
  case False
  with assms showPos_length(2)[of n] have l: "length (showPos n) = 2" by simp
  with showPos_props[OF assms(1)] assms show ?thesis
    by (simp add: padStart2_def showInt_def)
qed

lemma isDigit_not_dash: "isDigit c \<Longrightarrow> c \<noteq> CHR ''-''"
  by (auto simp: isDigit_def)

lemma digits_no_dash: "list_all isDigit ds \<Longrightarrow> CHR ''-'' \<notin> set ds"
  using isDigit_not_dash by (auto simp: list_all_iff)

lemma splitOn_no_sep: "sep \<notin> set a \<Longrightarrow> splitOn sep a = [a]"
  by (induction a) auto

lemma splitOn_append: "sep \<notin> set a \<Longrightarrow> splitOn sep (a @ sep # b) = a # splitOn sep b"
  by (induction a) auto

lemma jsWhiteSpace_no_digit: "list_all (\<lambda>w. w \<noteq> [] \<and> \<not> isDigit (hd w)) jsWhiteSpace"
  by (simp add: jsWhiteSpace_def isDigit_def)

lemma trimStart_digit:
  assumes "isDigit c"
  shows "trimStart (c # cs) = c # cs"
proof -
  have "\<not> startsWith (c # cs) w" if "w \<in> set jsWhiteSpace" for w
  proof -
    from that jsWhiteSpace_no_digit have "w \<noteq> []" "\<not> isDigit (hd w)"
      by (simp_all add: list_all_iff)
    with assms show ?thesis by (cases w) auto
  qed
  then have "find (startsWith (c # cs)) jsWhiteSpace = None"
    by (simp add: find_None_iff)
  then show ?thesis by (simp add: trimStart_def)
qed

lemma parseInt10_digits:
  assumes "ds \<noteq> []" "list_all isDigit ds"
  shows "parseInt10 ds = Some (int (digitsVal ds))"
proof -
  from assms obtain c cs where ds: "ds = c # cs" and c: "isDigit c" by (cases ds) auto
  have t: "trimStart ds = ds" unfolding ds by (rule trimStart_digit[OF c])
  have s: "\<not> startsWith ds ''-''" "\<not> startsWith ds ''+''"
    using c unfolding ds by (auto simp: isDigit_def)
  have tw: "takeWhile isDigit ds = ds" using assms(2) by (simp add: list_all_iff)
  show ?thesis
    using s assms(1) by (simp add: parseInt10_def Let_def t tw)
qed

text \<open>A text \<^verbatim>\<open>MM-DD-YYYY\<close> is read back as its three numbers, by the branch of line 36.\<close>

lemma parseMMDDYYYY_dateText:
  assumes "1 \<le> m" "m < 100" "1 \<le> d" "d < 100" "0 \<le> y"
  shows "parseMMDDYYYY rt (dateText y m d) = newDateYMD rt (Some y) (Some (m - 1)) (Some d)"
proof -
  let ?mm = "padStart2 (showInt m)" and ?dd = "padStart2 (showInt d)" and ?yy = "showInt y"
  have m: "length ?mm = 2" "list_all isDigit ?mm" "int (digitsVal ?mm) = m"
    using padStart2_two[of m] assms by simp_all
  have d: "length ?dd = 2" "list_all isDigit ?dd" "int (digitsVal ?dd) = d"
    using padStart2_two[of d] assms by simp_all
  have y: "?yy \<noteq> []" "list_all isDigit ?yy" "int (digitsVal ?yy) = y"
    using showPos_props[of y] assms by (simp_all add: showInt_def)
  have shape: "dateText y m d = ?mm @ CHR ''-'' # ?dd @ CHR ''-'' # ?yy"
    by (simp add: dateText_def)
  from m(1) obtain a b where ab: "?mm = [a, b]"
    by (auto simp: length_Suc_conv numeral_2_eq_2)
  have "\<not> isDigit (CHR ''-'')" by (simp add: isDigit_def)
  then have "\<not> list_all isDigit (take 4 (dateText y m d))"
    unfolding shape ab by simp
  then have iso: "\<not> isoPrefix (dateText y m d)" by (simp add: isoPrefix_def)
  have split: "splitOn (CHR ''-'') (dateText y m d) = [?mm, ?dd, ?yy]"
    unfolding shape
    using digits_no_dash[OF m(2)] digits_no_dash[OF d(2)] digits_no_dash[OF y(2)]
    by (simp add: splitOn_append splitOn_no_sep)
  have ne: "?mm \<noteq> []" "?dd \<noteq> []" using m(1) d(1) by auto
  have pm: "parseInt10 ?mm = Some m" using parseInt10_digits[OF ne(1) m(2)] m(3) by simp
  have pd: "parseInt10 ?dd = Some d" using parseInt10_digits[OF ne(2) d(2)] d(3) by simp
  have py: "parseInt10 ?yy = Some y" using parseInt10_digits[OF y(1) y(2)] y(3) by simp
  show ?thesis
    using iso split pm pd py assms
    by (simp add: parseMMDDYYYY_def Let_def part_def orOne_def)
qed

subsection \<open>The calendar\<close>

lemma DayFromYear_mono: "a \<le> b \<Longrightarrow> DayFromYear a \<le> DayFromYear b"
proof (induction b rule: int_ge_induct)
  case base
  show ?case by simp
next
  case (step i)
  then show ?case using DayFromYear_Suc[of i] DaysInYear_bounds[of i] by simp
qed

lemma yearSearch_spec:
  "DayFromYear (yearSearch day y) \<le> day \<and> day < DayFromYear (yearSearch day y + 1)"
proof (induction day y rule: yearSearch.induct)
  case (1 day y)
  show ?case by (subst (1 2) yearSearch.simps) (use 1 in auto)
qed

lemma YearFromDay_bounds:
  "DayFromYear (YearFromDay day) \<le> day" "day < DayFromYear (YearFromDay day + 1)"
  using yearSearch_spec[of day "1970 + day div 365"] by (simp_all add: YearFromDay_def)

lemma YearFromDay_unique:
  assumes "DayFromYear y \<le> day" "day < DayFromYear (y + 1)"
  shows "YearFromDay day = y"
proof (rule ccontr)
  assume ne: "YearFromDay day \<noteq> y"
  show False
  proof (cases "YearFromDay day < y")
    case True
    then have "DayFromYear (YearFromDay day + 1) \<le> DayFromYear y"
      by (intro DayFromYear_mono) simp
    with YearFromDay_bounds(2)[of day] assms(1) show False by simp
  next
    case False
    with ne have "DayFromYear (y + 1) \<le> DayFromYear (YearFromDay day)"
      by (intro DayFromYear_mono) simp
    with YearFromDay_bounds(1)[of day] assms(2) show False by simp
  qed
qed

lemma monthStart_12: "monthStart (InLeapYear y) 12 = DaysInYear y"
  using DaysInYear_bounds[of y] by (auto simp: monthStart_def InLeapYear_def)

lemma small_int_cases:
  fixes m :: int
  assumes "0 \<le> m" "m \<le> 11"
  shows "m \<in> {0, 1, 2, 3, 4, 5, 6, 7, 8, 9, 10, 11}"
proof -
  from assms have "m \<in> set [0..11]" by simp
  also have "[0..11] = [0, 1, 2, 3, 4, 5, 6, 7, 8, 9, 10, 11::int]" by code_simp
  finally show ?thesis by simp
qed

text \<open>The month of the if-chain of \<open>MonthFromDay\<close> is the one the day of the year lies in.\<close>

lemma month_chain:
  fixes x :: int
  assumes "0 \<le> x" "x < monthStart leap 12"
  shows "\<exists>M. 0 \<le> M \<and> M \<le> 11 \<and> monthStart leap M \<le> x \<and> x < monthStart leap (M + 1)
    \<and> (if x < monthStart leap 1 then 0
         else if x < monthStart leap 2 then 1
         else if x < monthStart leap 3 then 2
         else if x < monthStart leap 4 then 3
         else if x < monthStart leap 5 then 4
         else if x < monthStart leap 6 then 5
         else if x < monthStart leap 7 then 6
         else if x < monthStart leap 8 then 7
         else if x < monthStart leap 9 then 8
         else if x < monthStart leap 10 then 9
         else if x < monthStart leap 11 then 10
         else 11) = M"
  using assms by (cases leap) (simp_all add: monthStart_def)

lemma month_chain_unique:
  fixes x :: int
  assumes "0 \<le> M" "M \<le> 11" "monthStart leap M \<le> x" "x < monthStart leap (M + 1)"
  shows "(if x < monthStart leap 1 then 0
         else if x < monthStart leap 2 then 1
         else if x < monthStart leap 3 then 2
         else if x < monthStart leap 4 then 3
         else if x < monthStart leap 5 then 4
         else if x < monthStart leap 6 then 5
         else if x < monthStart leap 7 then 6
         else if x < monthStart leap 8 then 7
         else if x < monthStart leap 9 then 8
         else if x < monthStart leap 10 then 9
         else if x < monthStart leap 11 then 10
         else 11) = M"
proof -
  from small_int_cases[OF assms(1,2)] assms(3,4) show ?thesis
    by (cases leap) (auto simp: monthStart_def)
qed

lemma monthStart_step:
  assumes "0 \<le> M" "M \<le> 11"
  shows "0 \<le> monthStart leap M" "monthStart leap M + 28 \<le> monthStart leap (M + 1)"
    "monthStart leap (M + 1) \<le> monthStart leap M + 31" "monthStart leap (M + 1) \<le> monthStart leap 12"
  using small_int_cases[OF assms] by (auto simp: monthStart_def)

text \<open>Year, month and day of the month of the day number of a calendar date.\<close>

lemma civil_of_MakeDay:
  assumes "validDate y m d"
  shows "YearFromDay (MakeDay y (m - 1) d) = y"
    and "MonthFromDay (MakeDay y (m - 1) d) = m - 1"
    and "DateFromDay (MakeDay y (m - 1) d) = d"
proof -
  let ?leap = "InLeapYear y"
  let ?x = "monthStart ?leap (m - 1) + d - 1"
  from assms have m: "0 \<le> m - 1" "m - 1 \<le> 11" and d: "1 \<le> d"
    and dm: "d \<le> monthStart ?leap m - monthStart ?leap (m - 1)"
    by (simp_all add: validDate_def DaysInMonth_def)
  have md: "(m - 1) div 12 = 0" "(m - 1) mod 12 = m - 1" using m by simp_all
  have mk: "MakeDay y (m - 1) d = DayFromYear y + ?x"
    by (simp add: MakeDay_def Let_def md)
  from monthStart_step[OF m, of ?leap] have st: "0 \<le> monthStart ?leap (m - 1)"
    "monthStart ?leap m \<le> monthStart ?leap 12" by simp_all
  have x: "0 \<le> ?x" "?x < monthStart ?leap m" using st d dm by simp_all
  have "?x < DaysInYear y" using x st monthStart_12[of y] by simp
  then have "DayFromYear y + ?x < DayFromYear (y + 1)" by (simp add: DayFromYear_Suc)
  with x(1) show yr: "YearFromDay (MakeDay y (m - 1) d) = y"
    unfolding mk by (intro YearFromDay_unique) simp_all
  have lo: "monthStart ?leap (m - 1) \<le> ?x" using d by simp
  have hi: "?x < monthStart ?leap (m - 1 + 1)" using x(2) by simp
  have e: "MakeDay y (m - 1) d - DayFromYear y = ?x" by (simp add: mk)
  show mo: "MonthFromDay (MakeDay y (m - 1) d) = m - 1"
    unfolding MonthFromDay_def Let_def yr e by (rule month_chain_unique[OF m lo hi])
  show "DateFromDay (MakeDay y (m - 1) d) = d"
    unfolding DateFromDay_def Let_def yr mo e by simp
qed

text \<open>Conversely, the calendar date of a day number is valid and gives the day back.\<close>

lemma civil_valid:
  "validDate (YearFromDay n) (MonthFromDay n + 1) (DateFromDay n)"
  "MakeDay (YearFromDay n) (MonthFromDay n) (DateFromDay n + k) = n + k"
proof -
  let ?y = "YearFromDay n"
  let ?leap = "InLeapYear ?y"
  let ?x = "n - DayFromYear ?y"
  have x: "0 \<le> ?x" "?x < monthStart ?leap 12"
    using YearFromDay_bounds[of n] by (simp_all add: monthStart_12 DayFromYear_Suc)
  from month_chain[OF x] obtain M where M: "0 \<le> M" "M \<le> 11" "monthStart ?leap M \<le> ?x"
    "?x < monthStart ?leap (M + 1)" and mo: "MonthFromDay n = M"
    unfolding MonthFromDay_def Let_def by blast
  have dt: "DateFromDay n = ?x - monthStart ?leap M + 1"
    by (simp add: DateFromDay_def Let_def mo)
  show "validDate (YearFromDay n) (MonthFromDay n + 1) (DateFromDay n)"
    using M by (simp add: validDate_def DaysInMonth_def mo dt)
  have md: "M div 12 = 0" "M mod 12 = M" using M by simp_all
  show "MakeDay (YearFromDay n) (MonthFromDay n) (DateFromDay n + k) = n + k"
    by (simp add: MakeDay_def Let_def mo md dt)
qed

lemma validDate_bounds:
  assumes "validDate y m d"
  shows "1 \<le> m" "m \<le> 12" "1 \<le> d" "d \<le> 31" "validDate y m 1"
proof -
  from assms have m: "0 \<le> m - 1" "m - 1 \<le> 11" by (simp_all add: validDate_def)
  from monthStart_step[OF m, of "InLeapYear y"] assms
  show "1 \<le> m" "m \<le> 12" "1 \<le> d" "d \<le> 31" "validDate y m 1"
    by (simp_all add: validDate_def DaysInMonth_def)
qed

text \<open>The day numbers of the years 100 to 9999 are far inside the range of time values.\<close>

lemma day_range:
  assumes "99 \<le> YearFromDay n" "YearFromDay n \<le> 9999"
  shows "\<bar>n\<bar> \<le> 10000000"
proof -
  have "DayFromYear 99 \<le> DayFromYear (YearFromDay n)" by (rule DayFromYear_mono[OF assms(1)])
  moreover have "DayFromYear (YearFromDay n + 1) \<le> DayFromYear 10000"
    using assms(2) by (intro DayFromYear_mono) simp
  moreover have "DayFromYear 99 = - 683368" "DayFromYear 10000 = 2932897"
    by (simp_all add: DayFromYear_def)
  ultimately show ?thesis using YearFromDay_bounds[of n] by simp
qed

lemma TimeClip_midnight:
  assumes "\<bar>n\<bar> \<le> 10000000" "\<bar>tzOffsetMinutes rt\<bar> \<le> 1440"
  shows "TimeClip (UTC rt (n * msPerDay)) = localMidnight rt n"
  using assms by (simp add: TimeClip_def UTC_def msPerDay_def localMidnight_def)

lemma localDay_midnight: "localDay rt (localMidnight rt n) = Some n"
  by (simp add: localDay_def LocalTime_def Day_def msPerDay_def localMidnight_def)

lemma YearFromDay_ge: "DayFromYear z \<le> a \<Longrightarrow> z \<le> YearFromDay a"
proof (rule ccontr)
  assume a: "DayFromYear z \<le> a" and "\<not> z \<le> YearFromDay a"
  then have "DayFromYear (YearFromDay a + 1) \<le> DayFromYear z"
    by (intro DayFromYear_mono) simp
  with a YearFromDay_bounds(2)[of a] show False by simp
qed

lemma YearFromDay_mono: "a \<le> b \<Longrightarrow> YearFromDay a \<le> YearFromDay b"
  using YearFromDay_bounds(1)[of a] by (intro YearFromDay_ge) simp

lemma YearFromDay_week: "YearFromDay n - 1 \<le> YearFromDay (n - 6)"
proof -
  have "DayFromYear (YearFromDay n - 1) \<le> DayFromYear (YearFromDay n) - 6"
    using DayFromYear_pred[of "YearFromDay n"] DaysInYear_bounds[of "YearFromDay n - 1"] by simp
  with YearFromDay_bounds(1)[of n] show ?thesis by (intro YearFromDay_ge) simp
qed

subsection \<open>Weeks\<close>

lemma mondayOf_props:
  "WeekDay (mondayOf n) = 1" "mondayOf n \<le> n" "n - 6 \<le> mondayOf n"
  "WeekDay n = 0 \<Longrightarrow> mondayOf n = n - 6" "WeekDay n = 1 \<Longrightarrow> mondayOf n = n"
  unfolding mondayOf_def WeekDay_def by presburger+

lemma monday_diff:
  "n + (if WeekDay n = 0 then - 6 else 1 - WeekDay n) = mondayOf n"
  unfolding mondayOf_def WeekDay_def by presburger

lemma YearFromDay_mondayOf:
  "YearFromDay n - 1 \<le> YearFromDay (mondayOf n)" "YearFromDay (mondayOf n) \<le> YearFromDay n"
  using YearFromDay_week[of n] YearFromDay_mono[OF mondayOf_props(3)[of n]]
    YearFromDay_mono[OF mondayOf_props(2)[of n]] by simp_all

subsection \<open>The helpers on local midnights\<close>

lemma formatMMDDYYYY_midnight: "formatMMDDYYYY rt (localMidnight rt n) = dayText n"
  by (simp add: formatMMDDYYYY_def getMonth_def getDate_def getFullYear_def localDay_midnight
      numberText_def dateText_def dayText_def)

lemma newDateYMD_midnight:
  assumes "validDate y m d" "100 \<le> y" "y \<le> 9999" "\<bar>tzOffsetMinutes rt\<bar> \<le> 1440"
  shows "newDateYMD rt (Some y) (Some (m - 1)) (Some d) = localMidnight rt (MakeDay y (m - 1) d)"
proof -
  from civil_of_MakeDay(1)[OF assms(1)] assms(2,3)
  have "\<bar>MakeDay y (m - 1) d\<bar> \<le> 10000000" by (intro day_range) simp_all
  from TimeClip_midnight[OF this assms(4)] assms(2) show ?thesis
    by (simp add: newDateYMD_def)
qed

lemma parseMMDDYYYY_midnight:
  assumes "validDate y m d" "100 \<le> y" "y \<le> 9999" "\<bar>tzOffsetMinutes rt\<bar> \<le> 1440"
  shows "parseMMDDYYYY rt (dateText y m d) = localMidnight rt (MakeDay y (m - 1) d)"
proof -
  from validDate_bounds[OF assms(1)] assms(2)
  have "parseMMDDYYYY rt (dateText y m d) = newDateYMD rt (Some y) (Some (m - 1)) (Some d)"
    by (intro parseMMDDYYYY_dateText) simp_all
  with newDateYMD_midnight[OF assms] show ?thesis by simp
qed

lemma parseMMDDYYYY_dayText:
  assumes "100 \<le> YearFromDay n" "YearFromDay n \<le> 9999" "\<bar>tzOffsetMinutes rt\<bar> \<le> 1440"
  shows "parseMMDDYYYY rt (dayText n) = localMidnight rt n"
  using parseMMDDYYYY_midnight[OF civil_valid(1)[of n] assms] civil_valid(2)[of n 0]
  by (simp add: dayText_def)

lemma getMonday_midnight:
  assumes "99 \<le> YearFromDay (mondayOf n)" "YearFromDay (mondayOf n) \<le> 9999"
    "\<bar>tzOffsetMinutes rt\<bar> \<le> 1440"
  shows "getMonday rt (localMidnight rt n) = localMidnight rt (mondayOf n)"
proof -
  let ?diff = "if WeekDay n = 0 then - 6 else 1 - WeekDay n"
  have lt: "LocalTime rt (n * msPerDay - tzOffsetMinutes rt * 60000) = n * msPerDay"
    by (simp add: LocalTime_def)
  have dd: "Day (n * msPerDay) = n" "TimeWithinDay (n * msPerDay) = 0"
    by (simp_all add: Day_def TimeWithinDay_def msPerDay_def)
  have "setDate rt (localMidnight rt n) (Some (DateFromDay n + ?diff))
        = TimeClip (UTC rt ((n + ?diff) * msPerDay))"
    unfolding setDate_def localMidnight_def
    by (simp only: jsDate.case option.case Let_def lt dd civil_valid(2) add_0_right)
  also have "\<dots> = TimeClip (UTC rt (mondayOf n * msPerDay))"
    by (simp only: monday_diff)
  also have "\<dots> = localMidnight rt (mondayOf n)"
    by (rule TimeClip_midnight[OF day_range[OF assms(1,2)] assms(3)])
  finally show ?thesis
    by (simp add: getMonday_def getDay_def getDate_def localDay_midnight)
qed

lemma firstOfMonth_midnight:
  assumes "100 \<le> YearFromDay n" "YearFromDay n \<le> 9999" "\<bar>tzOffsetMinutes rt\<bar> \<le> 1440"
  shows "formatMMDDYYYY rt
           (newDateYMD rt (getFullYear rt (localMidnight rt n)) (getMonth rt (localMidnight rt n)) (Some 1))
         = dateText (YearFromDay n) (MonthFromDay n + 1) 1"
proof -
  let ?y = "YearFromDay n" and ?m = "MonthFromDay n + 1"
  have v: "validDate ?y ?m 1" by (rule validDate_bounds(5)[OF civil_valid(1)])
  have "newDateYMD rt (Some ?y) (Some (?m - 1)) (Some 1) = localMidnight rt (MakeDay ?y (?m - 1) 1)"
    by (rule newDateYMD_midnight[OF v assms])
  then show ?thesis
    using civil_of_MakeDay[OF v]
    by (simp add: getFullYear_def getMonth_def localDay_midnight formatMMDDYYYY_midnight dayText_def)
qed

end
